theory Spec2Isabelle
  imports
    Main
    "HOL-Library.Sublist"
    "HOL-Library.Char_ord"
    "HOL-Library.List_Lexorder"
    "HOL-Library.Log_Nat"
begin

section \<open>Data model\<close>

text \<open>
  The dashboard (\<^verbatim>\<open>Dashboard/app.py\<close>) works on pandas tables. A table is modelled by its
  column labels and its rows in index order; a row lists its cells with their labels.
  A cell is null (\<^verbatim>\<open>NaN\<close>/\<^verbatim>\<open>None\<close>), a string, or a number. A number is the exact rational
  value of a finite float64 (or of an integer); 0/1 flags are the numbers 0 and 1, which is
  how Python compares \<^verbatim>\<open>True == 1\<close>. Strings are byte strings; case folding is ASCII.

  Outside the model: column dtypes (every column behaves as an object column holding the
  cells it holds), infinities and negative zero, and tables with two columns of the same
  label (a merge that would create one is the error \<open>MergeError\<close>, which pandas raises
  when the clash is within one side).
\<close>

datatype cell = Null | Str string | Num rat

datatype error =
    KeyError string
  | TypeError
  | MergeError
  | NoSuchKey string
  | NotModelled

type_synonym row = "(string \<times> cell) list"

record dataframe =
  df_columns :: "string list"
  df_rows :: "row list"

record data_bundle =
  scores :: dataframe
  hiring :: dataframe
  features :: dataframe
  metadata :: dataframe
  spine :: dataframe

definition bind_err :: "error + 'a \<Rightarrow> ('a \<Rightarrow> error + 'b) \<Rightarrow> error + 'b" where
  "bind_err m f = (case m of Inl e \<Rightarrow> Inl e | Inr x \<Rightarrow> f x)"

text \<open>\<^verbatim>\<open>row[c]\<close> on a row of a table that has the column; a label the row lacks reads as null.\<close>

definition cell_of :: "row \<Rightarrow> string \<Rightarrow> cell" where
  "cell_of r c = (case map_of r c of None \<Rightarrow> Null | Some v \<Rightarrow> v)"

definition mk_row :: "string list \<Rightarrow> (string \<Rightarrow> cell) \<Rightarrow> row" where
  "mk_row cs f = map (\<lambda>c. (c, f c)) cs"

definition wf_frame :: "dataframe \<Rightarrow> bool" where
  "wf_frame df = (distinct (df_columns df) \<and> (\<forall>r \<in> set (df_rows df). map fst r = df_columns df))"

section \<open>Constants of the application\<close>

definition FUNDING_STAGE_LABELS :: "(rat \<times> string) list" where
  "FUNDING_STAGE_LABELS =
     [(0, ''Pre-Seed / Angel''), (1, ''Seed''), (2, ''Series A''), (3, ''Series B''),
      (4, ''Post-IPO'')]"

definition INDUSTRY_MAP :: "(string \<times> string) list" where
  "INDUSTRY_MAP =
     [(''ind_ai'', ''AI''), (''ind_software'', ''Software''), (''ind_it'', ''IT''),
      (''ind_saas'', ''SaaS''), (''ind_healthcare'', ''Healthcare''),
      (''ind_fintech'', ''FinTech''), (''ind_financial'', ''Financial Services''),
      (''ind_ml'', ''Machine Learning''), (''ind_manufacturing'', ''Manufacturing''),
      (''ind_biotech'', ''Biotech''), (''ind_genai'', ''Generative AI''),
      (''ind_devtools'', ''Developer Tools'')]"

definition spine_cols :: "string list" where
  "spine_cols =
     [''company_id'', ''name'', ''industries'', ''hq_location'', ''description_combined'',
      ''city'', ''state'', ''country'', ''total_funding_usd'', ''last_funding_date'',
      ''last_funding_type'', ''num_employees'', ''website'', ''linkedin'',
      ''top_investors'', ''num_investors'', ''founded_date'']"

definition all_tiers :: "string list" where
  "all_tiers = [''Very High'', ''High'', ''Moderate'', ''Low'', ''Very Low'']"

section \<open>Remote reader\<close>

text \<open>
  The bucket is the list of its keys with their objects, in the order in which
  \<^verbatim>\<open>list_objects_v2\<close> lists them. Parsing an object into a table is not modelled: an object
  is the table it parses to.
\<close>

type_synonym 'a bucket = "(string \<times> 'a) list"

definition list_objects_v2 :: "'a bucket \<Rightarrow> string \<Rightarrow> string list" where
  "list_objects_v2 b pfx = filter (prefix pfx) (map fst b)"

definition get_object :: "'a bucket \<Rightarrow> string \<Rightarrow> error + 'a" where
  "get_object b k = (case map_of b k of None \<Rightarrow> Inl (NoSuchKey k) | Some obj \<Rightarrow> Inr obj)"

definition csv_files :: "string list \<Rightarrow> string list" where
  "csv_files contents = filter (\<lambda>k. suffix ''.csv'' k \<and> \<not> sublist ''/_'' k) contents"

definition csv_target_key :: "string \<Rightarrow> string list \<Rightarrow> string" where
  "csv_target_key key contents = (case csv_files contents of [] \<Rightarrow> key | k # _ \<Rightarrow> k)"

definition read_csv_from_s3 :: "'a bucket \<Rightarrow> string \<Rightarrow> error + 'a" where
  "read_csv_from_s3 b key = get_object b (csv_target_key key (list_objects_v2 b key))"

definition pq_files :: "string list \<Rightarrow> string list" where
  "pq_files contents = filter (\<lambda>k. suffix ''.parquet'' k \<and> \<not> sublist ''/_'' k) contents"

definition pq_target_key :: "string \<Rightarrow> string list \<Rightarrow> string" where
  "pq_target_key key contents = (case pq_files contents of [] \<Rightarrow> key | k # _ \<Rightarrow> k)"

definition read_parquet_from_s3 :: "'a bucket \<Rightarrow> string \<Rightarrow> error + 'a" where
  "read_parquet_from_s3 b key = get_object b (pq_target_key key (list_objects_v2 b key))"

section \<open>Table operations of pandas used by the application\<close>

text \<open>\<^verbatim>\<open>df[[c1, ..., cn]]\<close>: the listed columns in the listed order, \<^verbatim>\<open>KeyError\<close> on a missing one.\<close>

definition select_cols :: "string list \<Rightarrow> dataframe \<Rightarrow> error + dataframe" where
  "select_cols cs df =
     (case filter (\<lambda>c. c \<notin> set (df_columns df)) cs of
        c # _ \<Rightarrow> Inl (KeyError c)
      | [] \<Rightarrow> Inr \<lparr>df_columns = cs, df_rows = map (\<lambda>r. mk_row cs (cell_of r)) (df_rows df)\<rparr>)"

text \<open>
  \<^verbatim>\<open>left.merge(right, on=key, how="left", suffixes=(lsuffix, rsuffix))\<close>. A column other than
  the key that both sides have gets the side's suffix. Every left row is kept, in order:
  once for each right row with an equal key (null keys are equal to each other), or once
  with nulls in the right columns when there is none.
\<close>

definition right_cols :: "string \<Rightarrow> dataframe \<Rightarrow> string list" where
  "right_cols key right = filter (\<lambda>c. c \<noteq> key) (df_columns right)"

definition left_label :: "string \<Rightarrow> string \<Rightarrow> dataframe \<Rightarrow> string \<Rightarrow> string" where
  "left_label key lsuffix right c = (if c \<in> set (right_cols key right) then c @ lsuffix else c)"

definition right_label :: "string \<Rightarrow> dataframe \<Rightarrow> string \<Rightarrow> string" where
  "right_label rsuffix left c = (if c \<in> set (df_columns left) then c @ rsuffix else c)"

definition merged_row ::
  "string \<Rightarrow> string \<Rightarrow> string \<Rightarrow> dataframe \<Rightarrow> dataframe \<Rightarrow> row \<Rightarrow> (string \<Rightarrow> cell) \<Rightarrow> row" where
  "merged_row key lsuffix rsuffix left right l rcell =
     map (\<lambda>c. (left_label key lsuffix right c, cell_of l c)) (df_columns left) @
     map (\<lambda>c. (right_label rsuffix left c, rcell c)) (right_cols key right)"

definition merged_rows ::
  "string \<Rightarrow> string \<Rightarrow> string \<Rightarrow> dataframe \<Rightarrow> dataframe \<Rightarrow> row \<Rightarrow> row list" where
  "merged_rows key lsuffix rsuffix left right l =
     (case filter (\<lambda>r. cell_of r key = cell_of l key) (df_rows right) of
        [] \<Rightarrow> [merged_row key lsuffix rsuffix left right l (\<lambda>c. Null)]
      | ms \<Rightarrow> map (\<lambda>r. merged_row key lsuffix rsuffix left right l (cell_of r)) ms)"

definition merge_left ::
  "string \<Rightarrow> string \<Rightarrow> string \<Rightarrow> dataframe \<Rightarrow> dataframe \<Rightarrow> error + dataframe" where
  "merge_left key lsuffix rsuffix left right =
     (if key \<notin> set (df_columns left) \<or> key \<notin> set (df_columns right) then Inl (KeyError key)
      else
        let cols = map (left_label key lsuffix right) (df_columns left) @
                   map (right_label rsuffix left) (right_cols key right)
        in if \<not> distinct cols then Inl MergeError
           else Inr \<lparr>df_columns = cols,
                     df_rows = concat (map (merged_rows key lsuffix rsuffix left right) (df_rows left))\<rparr>)"

text \<open>\<^verbatim>\<open>df[c] = values\<close>: the column is overwritten in place, or appended when it is new.\<close>

definition assign_col :: "string \<Rightarrow> (row \<Rightarrow> cell) \<Rightarrow> dataframe \<Rightarrow> dataframe" where
  "assign_col c f df =
     (let cols = (if c \<in> set (df_columns df) then df_columns df else df_columns df @ [c])
      in \<lparr>df_columns = cols,
          df_rows = map (\<lambda>r. mk_row cols (\<lambda>c'. if c' = c then f r else cell_of r c')) (df_rows df)\<rparr>)"

text \<open>
  \<^verbatim>\<open>df[dst] = df[src].apply(f)\<close> (also \<^verbatim>\<open>.map(...)\<close>) for an \<open>f\<close> that may raise: \<^verbatim>\<open>KeyError\<close>
  when \<open>src\<close> is missing, else the first error that \<open>f\<close> raises on a cell, else the table
  with the new column.
\<close>

definition apply_col ::
  "string \<Rightarrow> string \<Rightarrow> (cell \<Rightarrow> error + cell) \<Rightarrow> dataframe \<Rightarrow> error + dataframe" where
  "apply_col dst src f df =
     (if src \<notin> set (df_columns df) then Inl (KeyError src)
      else case List.map_filter (\<lambda>r. case f (cell_of r src) of Inl e \<Rightarrow> Some e | Inr _ \<Rightarrow> None)
                  (df_rows df) of
             e # _ \<Rightarrow> Inl e
           | [] \<Rightarrow> Inr (assign_col dst
                      (\<lambda>r. case f (cell_of r src) of Inl _ \<Rightarrow> Null | Inr v \<Rightarrow> v) df))"

definition drop_col :: "string \<Rightarrow> dataframe \<Rightarrow> dataframe" where
  "drop_col c df =
     (let cols = filter (\<lambda>c'. c' \<noteq> c) (df_columns df)
      in \<lparr>df_columns = cols, df_rows = map (\<lambda>r. mk_row cols (cell_of r)) (df_rows df)\<rparr>)"

definition fillna :: "cell \<Rightarrow> cell \<Rightarrow> cell" where
  "fillna v d = (if v = Null then d else v)"

text \<open>
  \<^verbatim>\<open>df.sort_values(c).reset_index(drop=True)\<close>: ascending, nulls last; a column mixing strings
  and numbers cannot be compared. pandas does not fix the order of rows with equal keys;
  the model keeps their order.
\<close>

fun cell_le :: "cell \<Rightarrow> cell \<Rightarrow> bool" where
  "cell_le _ Null = True"
| "cell_le Null _ = False"
| "cell_le (Num a) (Num b) = (a \<le> b)"
| "cell_le (Str a) (Str b) = (a \<le> b)"
| "cell_le (Num a) (Str b) = True"
| "cell_le (Str a) (Num b) = False"

fun insort_row :: "string \<Rightarrow> row \<Rightarrow> row list \<Rightarrow> row list" where
  "insort_row c x [] = [x]"
| "insort_row c x (y # ys) =
     (if cell_le (cell_of x c) (cell_of y c) then x # y # ys else y # insort_row c x ys)"

definition is_num :: "cell \<Rightarrow> bool" where
  "is_num v = (case v of Num _ \<Rightarrow> True | _ \<Rightarrow> False)"

definition is_str :: "cell \<Rightarrow> bool" where
  "is_str v = (case v of Str _ \<Rightarrow> True | _ \<Rightarrow> False)"

definition sort_values :: "string \<Rightarrow> dataframe \<Rightarrow> error + dataframe" where
  "sort_values c df =
     (if c \<notin> set (df_columns df) then Inl (KeyError c)
      else if (\<exists>r \<in> set (df_rows df). is_num (cell_of r c)) \<and>
              (\<exists>r \<in> set (df_rows df). is_str (cell_of r c)) then Inl TypeError
      else Inr (df\<lparr>df_rows := foldr (insort_row c) (df_rows df) []\<rparr>))"

section \<open>Data preparation\<close>

text \<open>\<^verbatim>\<open>row.get(col, default)\<close>\<close>

definition row_get :: "row \<Rightarrow> string \<Rightarrow> cell \<Rightarrow> cell" where
  "row_get r c d = (case map_of r c of None \<Rightarrow> d | Some v \<Rightarrow> v)"

text \<open>The loop of \<^verbatim>\<open>derive_primary_industry\<close> over the items of \<^verbatim>\<open>INDUSTRY_MAP\<close>, in their order.\<close>

fun first_industry :: "(string \<times> string) list \<Rightarrow> row \<Rightarrow> string" where
  "first_industry [] r = ''Other''"
| "first_industry ((col, label) # items) r =
     (if row_get r col (Num 0) = Num 1 then label else first_industry items r)"

definition derive_primary_industry :: "row \<Rightarrow> string" where
  "derive_primary_industry r = first_industry INDUSTRY_MAP r"

subsection \<open>Number formatting\<close>

text \<open>
  Python formats a float with \<^verbatim>\<open>.0f\<close> or \<^verbatim>\<open>.1f\<close> by rounding its exact value to the
  nearest decimal of that many places, ties to the even digit; the sign of a negative
  value stays when it rounds to zero. Float division rounds the exact quotient to the
  nearest float64, ties to even (53 significant bits; the exponent range is not modelled).
\<close>

definition round_half_even :: "rat \<Rightarrow> int" where
  "round_half_even x =
     (let f = \<lfloor>x\<rfloor>; d = x - of_int f
      in if d < 1 / 2 then f else if 1 / 2 < d then f + 1 else if even f then f else f + 1)"

definition pow2 :: "int \<Rightarrow> rat" where
  "pow2 e = (if 0 \<le> e then 2 ^ nat e else 1 / 2 ^ nat (- e))"

definition float_exponent :: "rat \<Rightarrow> int" where
  "float_exponent x =
     (let (p, q) = quotient_of \<bar>x\<bar>; e = bitlen p - bitlen q
      in if pow2 e \<le> \<bar>x\<bar> then e else e - 1)"

definition to_double :: "rat \<Rightarrow> rat" where
  "to_double x =
     (if x = 0 then 0
      else let u = pow2 (float_exponent x - 52) in of_int (round_half_even (x / u)) * u)"

definition float_div :: "rat \<Rightarrow> rat \<Rightarrow> rat" where
  "float_div a b = to_double (a / b)"

definition digit_char :: "nat \<Rightarrow> char" where
  "digit_char d = ''0123456789'' ! d"

fun dec :: "nat \<Rightarrow> string" where
  "dec n = (if n < 10 then [digit_char n] else dec (n div 10) @ [digit_char (n mod 10)])"

definition frac_digits :: "nat \<Rightarrow> nat \<Rightarrow> string" where
  "frac_digits p n = (let ds = dec n in replicate (p - length ds) CHR ''0'' @ ds)"

fun commas_rev :: "string \<Rightarrow> string" where
  "commas_rev (a # b # c # d # ds) = a # b # c # CHR '','' # commas_rev (d # ds)"
| "commas_rev ds = ds"

definition group_commas :: "string \<Rightarrow> string" where
  "group_commas ds = rev (commas_rev (rev ds))"

text \<open>\<^verbatim>\<open>format(x, ".pf")\<close>, and \<^verbatim>\<open>format(x, ",.pf")\<close> when \<open>grouped\<close>.\<close>

definition format_f :: "bool \<Rightarrow> nat \<Rightarrow> rat \<Rightarrow> string" where
  "format_f grouped p x =
     (let n = nat (round_half_even (\<bar>x\<bar> * 10 ^ p));
          ip = dec (n div 10 ^ p)
      in (if x < 0 then ''-'' else []) @
         (if grouped then group_commas ip else ip) @
         (if p = 0 then [] else ''.'' @ frac_digits p (n mod 10 ^ p)))"

definition format_usd :: "cell \<Rightarrow> error + string" where
  "format_usd v =
     (case v of
        Null \<Rightarrow> Inr ''N/A''
      | Str _ \<Rightarrow> Inl TypeError
      | Num x \<Rightarrow>
          if 1000000 \<le> x then Inr (''$'' @ format_f False 1 (float_div x 1000000) @ ''M'')
          else if 1000 \<le> x then Inr (''$'' @ format_f False 0 (float_div x 1000) @ ''K'')
          else Inr (''$'' @ format_f True 0 x))"

subsection \<open>The master table\<close>

definition stage_label :: "cell \<Rightarrow> cell" where
  "stage_label v =
     fillna (case v of Num x \<Rightarrow> (case map_of FUNDING_STAGE_LABELS x of
                                   None \<Rightarrow> Null | Some l \<Rightarrow> Str l)
             | _ \<Rightarrow> Null)
       (Str ''Unknown'')"

text \<open>
  \<^verbatim>\<open>if "name_spine" in df.columns: df["name"] = df["name"].fillna(df["name_spine"]);
  df.drop(columns=["name_spine"], inplace=True)\<close>
\<close>

definition use_spine_name :: "dataframe \<Rightarrow> error + dataframe" where
  "use_spine_name df =
     (if ''name_spine'' \<in> set (df_columns df) then
        if ''name'' \<notin> set (df_columns df) then Inl (KeyError ''name'')
        else Inr (drop_col ''name_spine''
               (assign_col ''name''
                  (\<lambda>r. fillna (cell_of r ''name'') (cell_of r ''name_spine'')) df))
      else Inr df)"

definition prepare_master_table :: "data_bundle \<Rightarrow> error + dataframe" where
  "prepare_master_table data =
     bind_err (select_cols [''company_id'', ''momentum_score'', ''momentum_tier'',
                            ''momentum_rank''] (scores data)) (\<lambda>scores_sel.
     bind_err (select_cols (filter (\<lambda>c. c \<in> set (df_columns (spine data))) spine_cols)
                 (spine data)) (\<lambda>spine_sel.
     bind_err (merge_left ''company_id'' ''_x'' ''_y'' (hiring data) scores_sel) (\<lambda>df1.
     bind_err (merge_left ''company_id'' [] ''_spine'' df1 spine_sel) (\<lambda>df2.
     bind_err (use_spine_name df2) (\<lambda>df3.
     bind_err (select_cols [''company_id'', ''funding_stage''] (scores data)) (\<lambda>scores_full.
     bind_err (merge_left ''company_id'' [] ''_dup'' df3 scores_full) (\<lambda>df4.
     bind_err (apply_col ''funding_stage_label'' ''funding_stage''
                 (\<lambda>v. Inr (stage_label v)) df4) (\<lambda>df5.
     bind_err (select_cols (''company_id'' #
                 filter (prefix ''ind_'') (df_columns (features data))) (features data)) (\<lambda>ind_sel.
     bind_err (select_cols [''company_id'', ''primary_industry'']
                 (assign_col ''primary_industry''
                    (\<lambda>r. Str (derive_primary_industry r)) ind_sel)) (\<lambda>ind_df.
     bind_err (merge_left ''company_id'' ''_x'' ''_y'' df5 ind_df) (\<lambda>df6.
     bind_err (if ''has_job_postings'' \<in> set (df_columns (features data)) then
                 bind_err (select_cols [''company_id'', ''has_job_postings''] (features data))
                   (\<lambda>jobs. merge_left ''company_id'' ''_x'' ''_y'' df6 jobs)
               else Inr df6) (\<lambda>df7.
     bind_err (apply_col ''total_funding_display'' ''total_funding_usd''
                 (\<lambda>v. map_sum id Str (format_usd v)) df7) (\<lambda>df8.
     sort_values ''hiring_rank'' df8)))))))))))))"

section \<open>Filters\<close>

text \<open>
  \<^verbatim>\<open>Series.str.contains(pat, case=False, na=False)\<close> searches with the regular expression
  \<open>pat\<close>, ignoring case. The model covers the patterns made of ordinary characters and the
  dot (any character but a newline); a pattern with another special character of
  \<^verbatim>\<open>re\<close> is \<open>NotModelled\<close>.
\<close>

definition lower_char :: "char \<Rightarrow> char" where
  "lower_char c =
     (if CHR ''A'' \<le> c \<and> c \<le> CHR ''Z'' then char_of (of_char c + (32 :: nat)) else c)"

definition lower :: "string \<Rightarrow> string" where
  "lower s = map lower_char s"

definition re_special :: "char \<Rightarrow> bool" where
  "re_special c = (c \<in> set (CHR 0x5C # ''^$*+?{}[]|()''))"

definition atom_matches :: "char \<Rightarrow> char \<Rightarrow> bool" where
  "atom_matches p c = (if p = CHR ''.'' then c \<noteq> CHR 0x0A else lower_char p = lower_char c)"

fun match_here :: "string \<Rightarrow> string \<Rightarrow> bool" where
  "match_here [] s = True"
| "match_here (p # ps) [] = False"
| "match_here (p # ps) (c # cs) = (atom_matches p c \<and> match_here ps cs)"

fun re_search :: "string \<Rightarrow> string \<Rightarrow> bool" where
  "re_search pat [] = match_here pat []"
| "re_search pat (c # cs) = (match_here pat (c # cs) \<or> re_search pat cs)"

definition str_contains :: "string \<Rightarrow> cell \<Rightarrow> bool" where
  "str_contains pat v = (case v of Str s \<Rightarrow> re_search pat s | _ \<Rightarrow> False)"

definition filter_rows :: "(row \<Rightarrow> bool) \<Rightarrow> dataframe \<Rightarrow> dataframe" where
  "filter_rows P df = df\<lparr>df_rows := filter P (df_rows df)\<rparr>"

text \<open>\<^verbatim>\<open>df[df[c] >= n]\<close>: a null is not \<open>\<ge> n\<close>; a string cannot be compared with a number.\<close>

definition filter_ge :: "string \<Rightarrow> int \<Rightarrow> dataframe \<Rightarrow> error + dataframe" where
  "filter_ge c n df =
     (if c \<notin> set (df_columns df) then Inl (KeyError c)
      else if \<exists>r \<in> set (df_rows df). is_str (cell_of r c) then Inl TypeError
      else Inr (filter_rows (\<lambda>r. case cell_of r c of Num x \<Rightarrow> of_int n \<le> x | _ \<Rightarrow> False) df))"

text \<open>\<^verbatim>\<open>df[df[c].isin(values)]\<close> for a list of strings.\<close>

definition filter_isin :: "string \<Rightarrow> string list \<Rightarrow> dataframe \<Rightarrow> error + dataframe" where
  "filter_isin c vs df =
     (if c \<notin> set (df_columns df) then Inl (KeyError c)
      else Inr (filter_rows (\<lambda>r. case cell_of r c of Str s \<Rightarrow> s \<in> set vs | _ \<Rightarrow> False) df))"

definition filter_contains :: "string \<Rightarrow> string \<Rightarrow> dataframe \<Rightarrow> error + dataframe" where
  "filter_contains c pat df =
     (if c \<notin> set (df_columns df) then Inl (KeyError c)
      else if \<exists>p \<in> set pat. re_special p then Inl NotModelled
      else Inr (filter_rows (\<lambda>r. str_contains pat (cell_of r c)) df))"

definition apply_filters ::
  "dataframe \<Rightarrow> int \<Rightarrow> string list \<Rightarrow> string list \<Rightarrow> string list \<Rightarrow> string
     \<Rightarrow> error + dataframe" where
  "apply_filters df min_score tiers industries stages search =
     bind_err (if 0 < min_score then filter_ge ''hiring_score'' min_score df else Inr df)
       (\<lambda>f1.
     bind_err (if tiers \<noteq> [] then filter_isin ''momentum_tier'' tiers f1 else Inr f1)
       (\<lambda>f2.
     bind_err (if industries \<noteq> [] then filter_isin ''primary_industry'' industries f2
               else Inr f2) (\<lambda>f3.
     bind_err (if stages \<noteq> [] then filter_isin ''funding_stage_label'' stages f3 else Inr f3)
       (\<lambda>f4.
     if search \<noteq> [] then filter_contains ''name'' search f4 else Inr f4))))"

section \<open>A small bundle of input tables\<close>

text \<open>
  Three companies are ranked in Hiring. \<open>c1\<close> is in every table; \<open>c2\<close> has no name in Hiring
  and is absent from Scores; \<open>c3\<close> has a funding stage code outside the table of labels and
  is absent from Spine and from Features.
\<close>

definition ex_hiring :: dataframe where
  "ex_hiring =
     \<lparr>df_columns = [''company_id'', ''name'', ''hiring_score'', ''hiring_tier'', ''hiring_rank''],
      df_rows =
        [[(''company_id'', Str ''c1''), (''name'', Str ''ACME Corp''),
          (''hiring_score'', Num (165 / 2)), (''hiring_tier'', Str ''Very High''),
          (''hiring_rank'', Num 1)],
         [(''company_id'', Str ''c2''), (''name'', Null),
          (''hiring_score'', Num 40), (''hiring_tier'', Str ''Low''),
          (''hiring_rank'', Num 3)],
         [(''company_id'', Str ''c3''), (''name'', Str ''Beta Labs''),
          (''hiring_score'', Num 55), (''hiring_tier'', Str ''Moderate''),
          (''hiring_rank'', Num 2)]]\<rparr>"

definition ex_scores :: dataframe where
  "ex_scores =
     \<lparr>df_columns = [''company_id'', ''momentum_score'', ''momentum_tier'', ''momentum_rank'',
                    ''funding_stage''],
      df_rows =
        [[(''company_id'', Str ''c1''), (''momentum_score'', Num (9 / 10)),
          (''momentum_tier'', Str ''Very High''), (''momentum_rank'', Num 1),
          (''funding_stage'', Num 2)],
         [(''company_id'', Str ''c3''), (''momentum_score'', Num (2 / 5)),
          (''momentum_tier'', Str ''Low''), (''momentum_rank'', Num 2),
          (''funding_stage'', Num 7)]]\<rparr>"

definition ex_spine :: dataframe where
  "ex_spine =
     \<lparr>df_columns = [''company_id'', ''name'', ''city'', ''total_funding_usd''],
      df_rows =
        [[(''company_id'', Str ''c1''), (''name'', Str ''Acme''), (''city'', Str ''Austin''),
          (''total_funding_usd'', Num 2300000)],
         [(''company_id'', Str ''c2''), (''name'', Str ''Gamma Inc''), (''city'', Null),
          (''total_funding_usd'', Num 1500)]]\<rparr>"

definition ex_features :: dataframe where
  "ex_features =
     \<lparr>df_columns = [''company_id'', ''ind_ai'', ''ind_saas'', ''has_job_postings''],
      df_rows =
        [[(''company_id'', Str ''c1''), (''ind_ai'', Num 0), (''ind_saas'', Num 1),
          (''has_job_postings'', Num 1)],
         [(''company_id'', Str ''c2''), (''ind_ai'', Num 0), (''ind_saas'', Num 0),
          (''has_job_postings'', Num 0)]]\<rparr>"

definition ex_metadata :: dataframe where
  "ex_metadata = \<lparr>df_columns = [''feature_name'', ''group''], df_rows = []\<rparr>"

definition ex_data :: data_bundle where
  "ex_data = \<lparr>scores = ex_scores, hiring = ex_hiring, features = ex_features,
              metadata = ex_metadata, spine = ex_spine\<rparr>"

definition ex_master :: dataframe where
  "ex_master =
     \<lparr>df_columns =
        [''company_id'', ''name'', ''hiring_score'', ''hiring_tier'', ''hiring_rank'',
         ''momentum_score'', ''momentum_tier'', ''momentum_rank'', ''city'',
         ''total_funding_usd'', ''funding_stage'', ''funding_stage_label'',
         ''primary_industry'', ''has_job_postings'', ''total_funding_display''],
      df_rows =
        [[(''company_id'', Str ''c1''), (''name'', Str ''ACME Corp''),
          (''hiring_score'', Num (165 / 2)), (''hiring_tier'', Str ''Very High''),
          (''hiring_rank'', Num 1), (''momentum_score'', Num (9 / 10)),
          (''momentum_tier'', Str ''Very High''), (''momentum_rank'', Num 1),
          (''city'', Str ''Austin''), (''total_funding_usd'', Num 2300000),
          (''funding_stage'', Num 2), (''funding_stage_label'', Str ''Series A''),
          (''primary_industry'', Str ''SaaS''), (''has_job_postings'', Num 1),
          (''total_funding_display'', Str ''$2.3M'')],
         [(''company_id'', Str ''c3''), (''name'', Str ''Beta Labs''),
          (''hiring_score'', Num 55), (''hiring_tier'', Str ''Moderate''),
          (''hiring_rank'', Num 2), (''momentum_score'', Num (2 / 5)),
          (''momentum_tier'', Str ''Low''), (''momentum_rank'', Num 2),
          (''city'', Null), (''total_funding_usd'', Null),
          (''funding_stage'', Num 7), (''funding_stage_label'', Str ''Unknown''),
          (''primary_industry'', Null), (''has_job_postings'', Null),
          (''total_funding_display'', Str ''N/A'')],
         [(''company_id'', Str ''c2''), (''name'', Str ''Gamma Inc''),
          (''hiring_score'', Num 40), (''hiring_tier'', Str ''Low''),
          (''hiring_rank'', Num 3), (''momentum_score'', Null),
          (''momentum_tier'', Null), (''momentum_rank'', Null),
          (''city'', Null), (''total_funding_usd'', Num 1500),
          (''funding_stage'', Null), (''funding_stage_label'', Str ''Unknown''),
          (''primary_industry'', Str ''Other''), (''has_job_postings'', Num 0),
          (''total_funding_display'', Str ''$2K'')]]\<rparr>"

text \<open>The same bundle with a Spine table that has no \<^verbatim>\<open>total_funding_usd\<close> column.\<close>

definition ex_spine_no_funding :: dataframe where
  "ex_spine_no_funding =
     \<lparr>df_columns = [''company_id'', ''name'', ''city''],
      df_rows =
        [[(''company_id'', Str ''c1''), (''name'', Str ''Acme''), (''city'', Str ''Austin'')],
         [(''company_id'', Str ''c2''), (''name'', Str ''Gamma Inc''), (''city'', Null)]]\<rparr>"

definition ex_data_no_funding :: data_bundle where
  "ex_data_no_funding = \<lparr>scores = ex_scores, hiring = ex_hiring, features = ex_features,
              metadata = ex_metadata, spine = ex_spine_no_funding\<rparr>"

section \<open>Relating the rows of two tables\<close>

text \<open>
  \<open>row_step R a b\<close>: every row of \<open>a\<close> has an \<open>R\<close>-related row in \<open>b\<close>, and every row of \<open>b\<close>
  is \<open>R\<close>-related to a row of \<open>a\<close>. \<open>merge_rel\<close> relates a left row to a row that a left
  merge made of it.
\<close>

definition row_step :: "(row \<Rightarrow> row \<Rightarrow> bool) \<Rightarrow> dataframe \<Rightarrow> dataframe \<Rightarrow> bool" where
  "row_step R a b =
     ((\<forall>l \<in> set (df_rows a). \<exists>m \<in> set (df_rows b). R l m) \<and>
      (\<forall>m \<in> set (df_rows b). \<exists>l \<in> set (df_rows a). R l m))"

definition merge_rel ::
  "string \<Rightarrow> string \<Rightarrow> string \<Rightarrow> dataframe \<Rightarrow> dataframe \<Rightarrow> row \<Rightarrow> row \<Rightarrow> bool" where
  "merge_rel key lsuffix rsuffix left right l m =
     ((\<forall>c \<in> set (df_columns left). cell_of m (left_label key lsuffix right c) = cell_of l c) \<and>
      ((\<exists>r \<in> set (df_rows right). cell_of r key = cell_of l key \<and>
          (\<forall>c \<in> set (right_cols key right).
             cell_of m (right_label rsuffix left c) = cell_of r c)) \<or>
       ((\<forall>r \<in> set (df_rows right). cell_of r key \<noteq> cell_of l key) \<and>
          (\<forall>c \<in> set (right_cols key right).
             cell_of m (right_label rsuffix left c) = Null))))"

section \<open>What a row of the master table holds\<close>

text \<open>
  \<open>joined T key k c v\<close>: \<open>v\<close> is what a left join on \<open>key\<close> puts in column \<open>c\<close> for a left
  row with key \<open>k\<close>: the cell of some row of \<open>T\<close> with that key, or null when \<open>T\<close> has none.
\<close>

definition joined :: "dataframe \<Rightarrow> string \<Rightarrow> cell \<Rightarrow> string \<Rightarrow> cell \<Rightarrow> bool" where
  "joined T key k c v =
     ((\<exists>t \<in> set (df_rows T). cell_of t key = k \<and> v = cell_of t c) \<or>
      ((\<forall>t \<in> set (df_rows T). cell_of t key \<noteq> k) \<and> v = Null))"

definition stage_labels :: "string list" where
  "stage_labels = map snd FUNDING_STAGE_LABELS @ [''Unknown'']"

definition industry_labels :: "string list" where
  "industry_labels = map snd INDUSTRY_MAP @ [''Other'']"

text \<open>
  Columns of Hiring that \<open>prepare_master_table\<close> may rename, overwrite or drop: a Hiring
  column with one of these labels need not reach the master table as it was.
\<close>

definition reserved_cols :: "string list" where
  "reserved_cols =
     [''name'', ''name_spine'', ''momentum_score'', ''momentum_tier'', ''momentum_rank'',
      ''funding_stage_label'', ''primary_industry'', ''has_job_postings'',
      ''total_funding_display'']"

text \<open>A label that does not end in one of the suffixes the merges append.\<close>

definition plain_col :: "string \<Rightarrow> bool" where
  "plain_col c =
     (\<not> suffix ''_x'' c \<and> \<not> suffix ''_y'' c \<and> \<not> suffix ''_spine'' c \<and> \<not> suffix ''_dup'' c)"

text \<open>
  The labels that the steps of \<open>prepare_master_table\<close> may add to the table, with the
  number of the step, and those that the first \<open>k\<close> steps may add.
\<close>

definition added_steps :: "(nat \<times> string list) list" where
  "added_steps =
     [(1, [''momentum_score'', ''momentum_tier'', ''momentum_rank'']),
      (2, spine_cols),
      (4, [''funding_stage'']),
      (5, [''funding_stage_label'']),
      (6, [''primary_industry'']),
      (7, [''has_job_postings'']),
      (8, [''total_funding_display''])]"

definition added_upto :: "nat \<Rightarrow> string list" where
  "added_upto k = concat (map snd (filter (\<lambda>(i, cs). i \<le> k) added_steps))"

definition origin_inv :: "nat \<Rightarrow> data_bundle \<Rightarrow> dataframe \<Rightarrow> bool" where
  "origin_inv k data df =
     (\<forall>c \<in> set (df_columns df). plain_col c \<longrightarrow>
        c \<in> set (df_columns (hiring data)) \<or> c \<in> set (added_upto k))"

text \<open>
  \<open>master_facts k data df h m\<close>: what is known of a row \<open>m\<close> of the table \<open>df\<close> reached after
  \<open>k\<close> steps of \<open>prepare_master_table\<close> (9 steps: the master table), when \<open>m\<close> was made from the
  Hiring row \<open>h\<close>.
\<close>

definition master_facts :: "nat \<Rightarrow> data_bundle \<Rightarrow> dataframe \<Rightarrow> row \<Rightarrow> row \<Rightarrow> bool" where
  "master_facts k data df h m =
     (let hc = set (df_columns (hiring data));
          cs = set (df_columns df);
          key = cell_of h ''company_id''
      in (\<forall>c \<in> hc - set reserved_cols. c \<in> cs \<and> cell_of m c = cell_of h c) \<and>
         (\<forall>c \<in> {''name''} \<inter> hc. cell_of h ''name'' \<noteq> Null \<longrightarrow>
            c \<in> cs \<and> cell_of m c = cell_of h c) \<and>
         (1 \<le> k \<longrightarrow>
            (\<forall>c \<in> {''momentum_score'', ''momentum_tier'', ''momentum_rank''} - hc.
               c \<in> cs \<and> joined (scores data) ''company_id'' key c (cell_of m c))) \<and>
         (2 \<le> k \<longrightarrow>
            (\<forall>c \<in> set spine_cols \<inter> set (df_columns (spine data)) - {''company_id'', ''name''} - hc.
               c \<in> cs \<and> joined (spine data) ''company_id'' key c (cell_of m c))) \<and>
         (4 \<le> k \<longrightarrow>
            (\<forall>c \<in> {''funding_stage''} - hc.
               c \<in> cs \<and> joined (scores data) ''company_id'' key c (cell_of m c))) \<and>
         (5 \<le> k \<longrightarrow>
            (\<forall>c \<in> {''funding_stage_label''}.
               c \<in> cs \<and> (\<exists>l \<in> set stage_labels. cell_of m c = Str l))) \<and>
         (6 \<le> k \<longrightarrow>
            (\<forall>c \<in> {''primary_industry''} - hc.
               c \<in> cs \<and>
               ((\<exists>f \<in> set (df_rows (features data)). cell_of f ''company_id'' = key \<and>
                   (\<exists>l \<in> set industry_labels. cell_of m c = Str l)) \<or>
                ((\<forall>f \<in> set (df_rows (features data)). cell_of f ''company_id'' \<noteq> key) \<and>
                   cell_of m c = Null)))) \<and>
         (7 \<le> k \<longrightarrow>
            (\<forall>c \<in> {''has_job_postings''} \<inter> set (df_columns (features data)) - hc.
               c \<in> cs \<and> joined (features data) ''company_id'' key c (cell_of m c))) \<and>
         (8 \<le> k \<longrightarrow>
            (\<forall>c \<in> {''total_funding_display''}.
               c \<in> cs \<and>
               (\<exists>s. format_usd (cell_of m ''total_funding_usd'') = Inr s \<and> cell_of m c = Str s))))"

section \<open>Properties of the remote reader\<close>

lemma append_eq_two:
  "[a, b] = xs @ ys \<Longrightarrow>
     (xs = [] \<and> ys = [a, b]) \<or> (xs = [a] \<and> ys = [b]) \<or> (xs = [a, b] \<and> ys = [])"
  by (auto simp: Cons_eq_append_conv)

lemma sublist_slash_underscore_append:
  assumes "\<not> sublist ''/_'' t" and "\<not> prefix ''_'' t"
  shows "sublist ''/_'' (key @ t) \<longleftrightarrow> sublist ''/_'' key"
proof
  assume "sublist ''/_'' (key @ t)"
  then consider "sublist ''/_'' key" | "sublist ''/_'' t"
    | xs1 xs2 where "''/_'' = xs1 @ xs2" "suffix xs1 key" "prefix xs2 t"
    unfolding sublist_append by blast
  then show "sublist ''/_'' key"
  proof cases
    case 1 then show ?thesis .
  next
    case 2 with assms show ?thesis by simp
  next
    case 3
    from append_eq_two [OF 3(1)]
    consider "xs1 = [] \<and> xs2 = ''/_''" | "xs1 = ''/'' \<and> xs2 = ''_''"
      | "xs1 = ''/_'' \<and> xs2 = []"
      by blast
    then show ?thesis
    proof cases
      case 1 with 3(3) assms(1) show ?thesis by (auto dest: prefix_imp_sublist)
    next
      case 2 with 3(3) assms(2) show ?thesis by simp
    next
      case 3 with \<open>suffix xs1 key\<close> show ?thesis by (auto dest: suffix_imp_sublist)
    qed
  qed
next
  assume "sublist ''/_'' key"
  then show "sublist ''/_'' (key @ t)" by (simp add: sublist_append)
qed

lemma suffix_append_long:
  assumes "length s \<le> length t"
  shows "suffix s (k @ t) \<longleftrightarrow> suffix s t"
proof
  assume "suffix s (k @ t)"
  then consider "suffix s t" | xs' where "s = xs' @ t" "suffix xs' k"
    unfolding suffix_append by blast
  then show "suffix s t"
  proof cases
    case 1 then show ?thesis .
  next
    case 2
    with assms have "xs' = []" by simp
    with 2 show ?thesis by simp
  qed
next
  assume "suffix s t" then show "suffix s (k @ t)" by (simp add: suffix_append)
qed

lemma suffix_csv_success: "\<not> suffix ''.csv'' (key @ ''/_SUCCESS'')"
  by (subst suffix_append_long) (simp, code_simp)

lemma suffix_pq_success: "\<not> suffix ''.parquet'' (key @ ''/_SUCCESS'')"
  by (subst suffix_append_long) (simp, code_simp)

lemma suffix_csv_part: "suffix ''.csv'' (key @ ''/part-00000.csv'')"
  by (subst suffix_append_long) (simp, code_simp)

lemma suffix_pq_part: "suffix ''.parquet'' (key @ ''/part-00000.parquet'')"
  by (subst suffix_append_long) (simp, code_simp)

lemma no_sentinel_csv_part:
  "\<not> sublist ''/_'' key \<Longrightarrow> \<not> sublist ''/_'' (key @ ''/part-00000.csv'')"
  by (subst sublist_slash_underscore_append) (code_simp, simp, simp)

lemma no_sentinel_pq_part:
  "\<not> sublist ''/_'' key \<Longrightarrow> \<not> sublist ''/_'' (key @ ''/part-00000.parquet'')"
  by (subst sublist_slash_underscore_append) (code_simp, simp, simp)

lemma first_of_filter:
  assumes "b \<in> set xs" "P b" "\<forall>x \<in> set xs. P x \<longrightarrow> x = b"
  shows "(case filter P xs of [] \<Rightarrow> d | k # _ \<Rightarrow> k) = b"
proof (cases "filter P xs")
  case Nil
  with assms(1,2) show ?thesis by (auto simp: filter_empty_conv)
next
  case (Cons k ks)
  then have "k \<in> set (filter P xs)" by simp
  with assms(3) have "k = b" by auto
  with Cons show ?thesis by simp
qed

lemma first_of_two:
  assumes "set xs = {a, b}" "P b" "\<not> P a"
  shows "(case filter P xs of [] \<Rightarrow> d | k # _ \<Rightarrow> k) = b"
proof (rule first_of_filter)
  show "b \<in> set xs" using assms(1) by simp
  show "P b" by fact
  show "\<forall>x \<in> set xs. P x \<longrightarrow> x = b"
  proof (intro ballI impI)
    fix x assume "x \<in> set xs" "P x"
    with assms(1) have "x = a \<or> x = b" by simp
    with \<open>P x\<close> assms(3) show "x = b" by blast
  qed
qed

text \<open>
  C9. Key resolution of the remote reader. When the listing under a key holds exactly the
  objects \<^verbatim>\<open>_SUCCESS\<close> and \<^verbatim>\<open>part-00000.csv\<close> of that directory, the reader fetches the part
  file; when no listed key has the expected extension and is free of a \<^verbatim>\<open>/_\<close> segment,
  it fetches the key itself. The same holds for the Parquet reader, and each reader
  fetches the key so resolved from the listing of the bucket under the key.
\<close>

theorem remote_reader_key_resolution:
  "(\<not> sublist ''/_'' key \<longrightarrow>
      set contents = {key @ ''/_SUCCESS'', key @ ''/part-00000.csv''} \<longrightarrow>
      csv_target_key key contents = key @ ''/part-00000.csv'') \<and>
   ((\<forall>k \<in> set contents. \<not> (suffix ''.csv'' k \<and> \<not> sublist ''/_'' k)) \<longrightarrow>
      csv_target_key key contents = key) \<and>
   (\<not> sublist ''/_'' key \<longrightarrow>
      set contents = {key @ ''/_SUCCESS'', key @ ''/part-00000.parquet''} \<longrightarrow>
      pq_target_key key contents = key @ ''/part-00000.parquet'') \<and>
   ((\<forall>k \<in> set contents. \<not> (suffix ''.parquet'' k \<and> \<not> sublist ''/_'' k)) \<longrightarrow>
      pq_target_key key contents = key) \<and>
   read_csv_from_s3 b key = get_object b (csv_target_key key (list_objects_v2 b key)) \<and>
   read_parquet_from_s3 b key = get_object b (pq_target_key key (list_objects_v2 b key))"
proof (intro conjI impI)
  assume k: "\<not> sublist ''/_'' key"
    and c: "set contents = {key @ ''/_SUCCESS'', key @ ''/part-00000.csv''}"
  show "csv_target_key key contents = key @ ''/part-00000.csv''"
    unfolding csv_target_key_def csv_files_def
  proof (rule first_of_two [OF c])
    show "suffix ''.csv'' (key @ ''/part-00000.csv'') \<and>
          \<not> sublist ''/_'' (key @ ''/part-00000.csv'')"
      using suffix_csv_part no_sentinel_csv_part [OF k] by blast
    show "\<not> (suffix ''.csv'' (key @ ''/_SUCCESS'') \<and> \<not> sublist ''/_'' (key @ ''/_SUCCESS''))"
      using suffix_csv_success by blast
  qed
next
  assume "\<forall>k \<in> set contents. \<not> (suffix ''.csv'' k \<and> \<not> sublist ''/_'' k)"
  then have "csv_files contents = []"
    unfolding csv_files_def filter_empty_conv by blast
  then show "csv_target_key key contents = key" by (simp add: csv_target_key_def)
next
  assume k: "\<not> sublist ''/_'' key"
    and c: "set contents = {key @ ''/_SUCCESS'', key @ ''/part-00000.parquet''}"
  show "pq_target_key key contents = key @ ''/part-00000.parquet''"
    unfolding pq_target_key_def pq_files_def
  proof (rule first_of_two [OF c])
    show "suffix ''.parquet'' (key @ ''/part-00000.parquet'') \<and>
          \<not> sublist ''/_'' (key @ ''/part-00000.parquet'')"
      using suffix_pq_part no_sentinel_pq_part [OF k] by blast
    show "\<not> (suffix ''.parquet'' (key @ ''/_SUCCESS'') \<and>
             \<not> sublist ''/_'' (key @ ''/_SUCCESS''))"
      using suffix_pq_success by blast
  qed
next
  assume "\<forall>k \<in> set contents. \<not> (suffix ''.parquet'' k \<and> \<not> sublist ''/_'' k)"
  then have "pq_files contents = []"
    unfolding pq_files_def filter_empty_conv by blast
  then show "pq_target_key key contents = key" by (simp add: pq_target_key_def)
next
  show "read_csv_from_s3 b key = get_object b (csv_target_key key (list_objects_v2 b key))"
    by (simp add: read_csv_from_s3_def)
next
  show "read_parquet_from_s3 b key =
        get_object b (pq_target_key key (list_objects_v2 b key))"
    by (simp add: read_parquet_from_s3_def)
qed
theorem remote_reader_key_resolution_witness:
  "\<not> sublist ''/_'' ''modeling/company_scores.csv'' \<and>
   csv_target_key ''modeling/company_scores.csv''
     [''modeling/company_scores.csv/_SUCCESS'', ''modeling/company_scores.csv/part-00000.csv'']
     = ''modeling/company_scores.csv/part-00000.csv'' \<and>
   csv_target_key ''modeling/company_scores.csv'' [''modeling/company_scores.csv/_SUCCESS'']
     = ''modeling/company_scores.csv'' \<and>
   \<not> sublist ''/_'' ''modeling/features.parquet'' \<and>
   pq_target_key ''modeling/features.parquet''
     [''modeling/features.parquet/_SUCCESS'', ''modeling/features.parquet/part-00000.parquet'']
     = ''modeling/features.parquet/part-00000.parquet'' \<and>
   pq_target_key ''modeling/features.parquet'' [''modeling/features.parquet/_SUCCESS'']
     = ''modeling/features.parquet''"
proof -
  let ?k = "''modeling/company_scores.csv''" and ?q = "''modeling/features.parquet''"
  have k: "\<not> sublist ''/_'' ?k" by code_simp
  have q: "\<not> sublist ''/_'' ?q" by code_simp
  have c1: "set [?k @ ''/_SUCCESS'', ?k @ ''/part-00000.csv''] =
            {?k @ ''/_SUCCESS'', ?k @ ''/part-00000.csv''}" by simp
  have q1: "set [?q @ ''/_SUCCESS'', ?q @ ''/part-00000.parquet''] =
            {?q @ ''/_SUCCESS'', ?q @ ''/part-00000.parquet''}" by simp
  have c2: "\<forall>x \<in> set [?k @ ''/_SUCCESS'']. \<not> (suffix ''.csv'' x \<and> \<not> sublist ''/_'' x)"
    using suffix_csv_success [of ?k] by simp
  have q2: "\<forall>x \<in> set [?q @ ''/_SUCCESS'']. \<not> (suffix ''.parquet'' x \<and> \<not> sublist ''/_'' x)"
    using suffix_pq_success [of ?q] by simp
  have a1: "csv_target_key ?k [?k @ ''/_SUCCESS'', ?k @ ''/part-00000.csv''] =
            ?k @ ''/part-00000.csv''"
    using remote_reader_key_resolution
      [of ?k "[?k @ ''/_SUCCESS'', ?k @ ''/part-00000.csv'']" "[] :: string bucket"] k c1
    by blast
  have a2: "csv_target_key ?k [?k @ ''/_SUCCESS''] = ?k"
    using remote_reader_key_resolution [of ?k "[?k @ ''/_SUCCESS'']" "[] :: string bucket"] c2
    by blast
  have b1: "pq_target_key ?q [?q @ ''/_SUCCESS'', ?q @ ''/part-00000.parquet''] =
            ?q @ ''/part-00000.parquet''"
    using remote_reader_key_resolution
      [of ?q "[?q @ ''/_SUCCESS'', ?q @ ''/part-00000.parquet'']" "[] :: string bucket"] q q1
    by blast
  have b2: "pq_target_key ?q [?q @ ''/_SUCCESS''] = ?q"
    using remote_reader_key_resolution [of ?q "[?q @ ''/_SUCCESS'']" "[] :: string bucket"] q2
    by blast
  from k a1 a2 q b1 b2 show ?thesis by simp
qed

section \<open>Properties of the filters\<close>

text \<open>
  C6. With \<open>min_score = 0\<close>, no tiers, no industries, no stages and an empty search string,
  \<open>apply_filters\<close> returns the table it was given: the same columns and the same rows in
  the same order.
\<close>

theorem apply_filters_all_empty:
  "apply_filters df 0 [] [] [] [] = Inr df"
  by (simp add: apply_filters_def bind_err_def)
lemma bind_err_Inr [simp]: "bind_err (Inr x) f = f x"
  by (simp add: bind_err_def)

lemma bind_err_Inl [simp]: "bind_err (Inl e) f = Inl e"
  by (simp add: bind_err_def)

lemma bind_err_eq_Inr: "bind_err m f = Inr y \<longleftrightarrow> (\<exists>x. m = Inr x \<and> f x = Inr y)"
  by (cases m) simp_all

lemma ge_pred_iff:
  "(case v of Num x \<Rightarrow> of_int n \<le> x | _ \<Rightarrow> False) \<longleftrightarrow> (\<exists>x. v = Num x \<and> of_int n \<le> x)"
  by (cases v) simp_all

lemma isin_pred_iff:
  "(case v of Str s \<Rightarrow> s \<in> set vs | _ \<Rightarrow> False) \<longleftrightarrow> (\<exists>t \<in> set vs. v = Str t)"
  by (cases v) auto

lemma filter_ge_ok:
  assumes "c \<in> set (df_columns df)" and "\<forall>r \<in> set (df_rows df). \<not> is_str (cell_of r c)"
  shows "filter_ge c n df =
         Inr (df\<lparr>df_rows := filter (\<lambda>r. \<exists>x. cell_of r c = Num x \<and> of_int n \<le> x) (df_rows df)\<rparr>)"
  using assms by (simp add: filter_ge_def filter_rows_def ge_pred_iff)

lemma filter_isin_ok:
  assumes "c \<in> set (df_columns df)"
  shows "filter_isin c vs df =
         Inr (df\<lparr>df_rows := filter (\<lambda>r. \<exists>t \<in> set vs. cell_of r c = Str t) (df_rows df)\<rparr>)"
  using assms by (simp add: filter_isin_def filter_rows_def isin_pred_iff)

lemma filter_ge_rows:
  "filter_ge c n df = Inr out \<Longrightarrow>
     df_columns out = df_columns df \<and>
     df_rows out = filter (\<lambda>r. \<exists>x. cell_of r c = Num x \<and> of_int n \<le> x) (df_rows df)"
  by (auto simp: filter_ge_def filter_rows_def ge_pred_iff split: if_splits)

lemma filter_isin_rows:
  "filter_isin c vs df = Inr out \<Longrightarrow>
     df_columns out = df_columns df \<and>
     df_rows out = filter (\<lambda>r. \<exists>t \<in> set vs. cell_of r c = Str t) (df_rows df)"
  by (auto simp: filter_isin_def filter_rows_def isin_pred_iff split: if_splits)

lemma filter_contains_rows:
  "filter_contains c pat df = Inr out \<Longrightarrow>
     df_columns out = df_columns df \<and>
     df_rows out = filter (\<lambda>r. str_contains pat (cell_of r c)) (df_rows df)"
  by (auto simp: filter_contains_def filter_rows_def split: if_splits)

text \<open>
  C7. For a table with a numeric (or null) \<^verbatim>\<open>hiring_score\<close> column and a threshold
  \<open>min_score > 0\<close> (the claim's 50 is the witness), \<open>apply_filters\<close> with the other criteria
  empty returns exactly the rows with \<open>hiring_score \<ge> min_score\<close>, in their order; with a
  non-empty list of tiers as well it returns exactly the rows that satisfy the threshold
  and whose \<^verbatim>\<open>momentum_tier\<close> is one of the tiers.
\<close>

theorem apply_filters_min_score_tiers:
  assumes "0 < min_score"
    and "''hiring_score'' \<in> set (df_columns df)"
    and "\<forall>r \<in> set (df_rows df). \<not> is_str (cell_of r ''hiring_score'')"
  shows "apply_filters df min_score [] [] [] [] =
           Inr (df\<lparr>df_rows :=
                  filter (\<lambda>r. \<exists>x. cell_of r ''hiring_score'' = Num x \<and> of_int min_score \<le> x)
                    (df_rows df)\<rparr>) \<and>
         (tiers \<noteq> [] \<longrightarrow> ''momentum_tier'' \<in> set (df_columns df) \<longrightarrow>
          apply_filters df min_score tiers [] [] [] =
           Inr (df\<lparr>df_rows :=
                  filter (\<lambda>r. (\<exists>x. cell_of r ''hiring_score'' = Num x \<and> of_int min_score \<le> x) \<and>
                              (\<exists>t \<in> set tiers. cell_of r ''momentum_tier'' = Str t))
                    (df_rows df)\<rparr>))"
proof (intro conjI impI)
  show "apply_filters df min_score [] [] [] [] =
           Inr (df\<lparr>df_rows :=
                  filter (\<lambda>r. \<exists>x. cell_of r ''hiring_score'' = Num x \<and> of_int min_score \<le> x)
                    (df_rows df)\<rparr>)"
    using assms(1) by (simp add: apply_filters_def filter_ge_ok [OF assms(2,3)])
next
  assume t: "tiers \<noteq> []" and c: "''momentum_tier'' \<in> set (df_columns df)"
  show "apply_filters df min_score tiers [] [] [] =
           Inr (df\<lparr>df_rows :=
                  filter (\<lambda>r. (\<exists>x. cell_of r ''hiring_score'' = Num x \<and> of_int min_score \<le> x) \<and>
                              (\<exists>t \<in> set tiers. cell_of r ''momentum_tier'' = Str t))
                    (df_rows df)\<rparr>)"
    using assms(1) t c
    by (simp add: apply_filters_def filter_ge_ok [OF assms(2,3)] filter_isin_ok conj_commute)
qed

theorem apply_filters_min_score_tiers_witness:
  "apply_filters ex_master 50 [] [] [] [] =
     Inr (ex_master\<lparr>df_rows :=
            filter (\<lambda>r. \<exists>x. cell_of r ''hiring_score'' = Num x \<and> of_int 50 \<le> x)
              (df_rows ex_master)\<rparr>) \<and>
   apply_filters ex_master 50 [''Low'', ''Very Low''] [] [] [] =
     Inr (ex_master\<lparr>df_rows :=
            filter (\<lambda>r. (\<exists>x. cell_of r ''hiring_score'' = Num x \<and> of_int 50 \<le> x) \<and>
                        (\<exists>t \<in> set [''Low'', ''Very Low'']. cell_of r ''momentum_tier'' = Str t))
              (df_rows ex_master)\<rparr>) \<and>
   apply_filters ex_master 50 [] [] [] [] =
     Inr (ex_master\<lparr>df_rows := take 2 (df_rows ex_master)\<rparr>) \<and>
   apply_filters ex_master 50 [''Low'', ''Very Low''] [] [] [] =
     Inr (ex_master\<lparr>df_rows := [df_rows ex_master ! 1]\<rparr>)"
proof -
  have h1: "(0::int) < 50" by simp
  have h2: "''hiring_score'' \<in> set (df_columns ex_master)" by code_simp
  have h3: "\<forall>r \<in> set (df_rows ex_master). \<not> is_str (cell_of r ''hiring_score'')" by code_simp
  have h4: "[''Low'', ''Very Low''] \<noteq> []" by simp
  have h5: "''momentum_tier'' \<in> set (df_columns ex_master)" by code_simp
  note t = apply_filters_min_score_tiers [OF h1 h2 h3, of "[''Low'', ''Very Low'']"]
  have a: "apply_filters ex_master 50 [] [] [] [] =
     Inr (ex_master\<lparr>df_rows := take 2 (df_rows ex_master)\<rparr>)" by code_simp
  have b: "apply_filters ex_master 50 [''Low'', ''Very Low''] [] [] [] =
     Inr (ex_master\<lparr>df_rows := [df_rows ex_master ! 1]\<rparr>)" by code_simp
  from t h4 h5 a b show ?thesis by blast
qed

lemma match_here_literal:
  "CHR ''.'' \<notin> set pat \<Longrightarrow> match_here pat s \<longleftrightarrow> prefix (lower pat) (lower s)"
  by (induction pat s rule: match_here.induct) (auto simp: atom_matches_def lower_def)

lemma sublist_Cons_right_iff:
  "sublist xs (y # ys) \<longleftrightarrow> prefix xs (y # ys) \<or> sublist xs ys"
  by (cases xs) (simp_all add: sublist_code)

lemma re_search_literal:
  "CHR ''.'' \<notin> set pat \<Longrightarrow> re_search pat s \<longleftrightarrow> sublist (lower pat) (lower s)"
proof (induction s)
  case Nil
  then show ?case by (simp add: match_here_literal) (simp add: lower_def)
next
  case (Cons c cs)
  have "lower (c # cs) = lower_char c # lower cs" by (simp add: lower_def)
  with Cons show ?case
    by (simp add: match_here_literal sublist_Cons_right_iff)
qed

text \<open>
  A search string of ordinary characters (no dot, no other special character of \<^verbatim>\<open>re\<close>)
  keeps exactly the rows whose name is a string containing it, ignoring case.
\<close>

lemma apply_filters_search_literal:
  assumes "search \<noteq> []" and "''name'' \<in> set (df_columns df)"
    and "\<forall>p \<in> set search. \<not> re_special p \<and> p \<noteq> CHR ''.''"
  shows "apply_filters df 0 [] [] [] search =
           Inr (df\<lparr>df_rows :=
                  filter (\<lambda>r. \<exists>s. cell_of r ''name'' = Str s \<and> sublist (lower search) (lower s))
                    (df_rows df)\<rparr>)"
proof -
  have d: "CHR ''.'' \<notin> set search" using assms(3) by blast
  have p: "str_contains search v \<longleftrightarrow> (\<exists>s. v = Str s \<and> sublist (lower search) (lower s))" for v
    by (cases v) (simp_all add: str_contains_def re_search_literal [OF d])
  show ?thesis
    using assms by (simp add: apply_filters_def filter_contains_def filter_rows_def p)
qed

text \<open>
  C5. The claim: a non-empty search keeps exactly the rows whose name contains the search
  string, ignoring case. The code compiles the search string as a regular expression, so
  at the search string \<^verbatim>\<open>.\<close> it keeps all three rows of the example table, none of whose
  names contains a dot. A search made of ordinary characters, such as \<^verbatim>\<open>acme\<close>, keeps
  the rows that the claim describes.
\<close>

theorem apply_filters_search_dot:
  "apply_filters ex_master 0 [] [] [] ''.'' = Inr ex_master \<and>
   map (\<lambda>r. cell_of r ''name'') (df_rows ex_master) =
     [Str ''ACME Corp'', Str ''Beta Labs'', Str ''Gamma Inc''] \<and>
   \<not> sublist (lower ''.'') (lower ''ACME Corp'') \<and>
   \<not> sublist (lower ''.'') (lower ''Beta Labs'') \<and>
   \<not> sublist (lower ''.'') (lower ''Gamma Inc'') \<and>
   apply_filters ex_master 0 [] [] [] ''acme'' =
     Inr (ex_master\<lparr>df_rows := [df_rows ex_master ! 0]\<rparr>)"
  by code_simp

section \<open>Properties of the number formatting\<close>





declare dec.simps [simp del]






text \<open>Grouping only inserts commas: without them the digits are unchanged.\<close>

lemma commas_rev_filter:
  "CHR '','' \<notin> set ds \<Longrightarrow> filter (\<lambda>c. c \<noteq> CHR '','') (commas_rev ds) = ds"
  by (induction ds rule: commas_rev.induct) auto

lemma group_commas_filter:
  assumes "CHR '','' \<notin> set ds"
  shows "filter (\<lambda>c. c \<noteq> CHR '','') (group_commas ds) = ds"
proof -
  have "filter (\<lambda>c. c \<noteq> CHR '','') (commas_rev (rev ds)) = rev ds"
    using assms by (intro commas_rev_filter) simp
  then show ?thesis by (simp add: group_commas_def rev_filter [symmetric])
qed


lemma pow2_nat: "pow2 (int n) = 2 ^ n"
  by (simp add: pow2_def)










section \<open>Properties of the master table\<close>

lemma ex_master_eval: "prepare_master_table ex_data = Inr ex_master"
  by code_simp

text \<open>
  C3. The claim: a Spine table that lacks optional descriptive columns, for example
  \<^verbatim>\<open>total_funding_usd\<close>, still gives a master table. The code selects the Spine columns
  that are present, but then reads \<^verbatim>\<open>df["total_funding_usd"]\<close> without a guard: on the
  example bundle whose Spine has only \<^verbatim>\<open>company_id\<close>, \<^verbatim>\<open>name\<close> and \<^verbatim>\<open>city\<close> it raises
  \<^verbatim>\<open>KeyError\<close>.
\<close>

theorem prepare_master_table_missing_funding:
  "prepare_master_table ex_data_no_funding = Inl (KeyError ''total_funding_usd'') \<and>
   set (df_columns (spine ex_data_no_funding)) \<subseteq> set spine_cols \<and>
   ''company_id'' \<in> set (df_columns (spine ex_data_no_funding))"
  by code_simp
subsection \<open>Rows and cells\<close>

lemma cell_of_mk_row: "cell_of (mk_row cs f) c = (if c \<in> set cs then f c else Null)"
  by (induction cs) (auto simp: cell_of_def mk_row_def)

lemma map_fst_mk_row: "map fst (mk_row cs f) = cs"
  by (simp add: mk_row_def comp_def)

lemma cell_of_distinct: "distinct (map fst r) \<Longrightarrow> (c, v) \<in> set r \<Longrightarrow> cell_of r c = v"
  by (simp add: cell_of_def)

lemma map_of_wf:
  assumes "wf_frame df" "r \<in> set (df_rows df)" "c \<in> set (df_columns df)"
  shows "map_of r c = Some (cell_of r c)"
proof -
  have "map fst r = df_columns df" using assms(1,2) by (simp add: wf_frame_def)
  with assms(3) have "c \<in> fst ` set r" by (metis set_map)
  then have "map_of r c \<noteq> None" by (simp add: map_of_eq_None_iff)
  then show ?thesis by (auto simp: cell_of_def)
qed

lemma row_stepI:
  assumes "\<And>l. l \<in> set (df_rows a) \<Longrightarrow> \<exists>m \<in> set (df_rows b). R l m"
    and "\<And>m. m \<in> set (df_rows b) \<Longrightarrow> \<exists>l \<in> set (df_rows a). R l m"
  shows "row_step R a b"
  using assms unfolding row_step_def by blast

lemma row_step_map:
  assumes "df_rows b = map g (df_rows a)" and "\<And>l. l \<in> set (df_rows a) \<Longrightarrow> R l (g l)"
  shows "row_step R a b"
  using assms unfolding row_step_def by auto

lemma row_step_set:
  assumes "set (df_rows b) = set (df_rows a)" and "\<And>l. R l l"
  shows "row_step R a b"
  using assms unfolding row_step_def by auto

lemma row_step_trans:
  assumes "row_step R a b" and "row_step S b c"
  shows "row_step (\<lambda>l n. \<exists>m. R l m \<and> S m n) a c"
  using assms unfolding row_step_def by meson

lemma row_step_mono:
  assumes "row_step R a b" and "\<And>l m. R l m \<Longrightarrow> R' l m"
  shows "row_step R' a b"
  using assms unfolding row_step_def by meson

lemma row_step_fwd:
  "row_step R a b \<Longrightarrow> l \<in> set (df_rows a) \<Longrightarrow> \<exists>m \<in> set (df_rows b). R l m"
  unfolding row_step_def by blast

lemma row_step_bwd:
  "row_step R a b \<Longrightarrow> m \<in> set (df_rows b) \<Longrightarrow> \<exists>l \<in> set (df_rows a). R l m"
  unfolding row_step_def by blast

subsection \<open>Selecting columns\<close>

lemma select_cols_Inr:
  assumes "select_cols cs df = Inr out"
  shows "df_columns out = cs" and "df_rows out = map (\<lambda>r. mk_row cs (cell_of r)) (df_rows df)"
    and "set cs \<subseteq> set (df_columns df)"
proof -
  from assms have f: "filter (\<lambda>c. c \<notin> set (df_columns df)) cs = []"
    by (auto simp: select_cols_def split: list.splits)
  then show "set cs \<subseteq> set (df_columns df)" by (auto simp: filter_empty_conv)
  from assms f show "df_columns out = cs"
    and "df_rows out = map (\<lambda>r. mk_row cs (cell_of r)) (df_rows df)"
    by (auto simp: select_cols_def)
qed

lemma select_cols_step:
  assumes "select_cols cs df = Inr out"
  shows "row_step (\<lambda>l m. \<forall>c \<in> set cs. cell_of m c = cell_of l c) df out"
  by (rule row_step_map [OF select_cols_Inr(2) [OF assms]]) (simp add: cell_of_mk_row)

lemma select_cols_wf:
  assumes "select_cols cs df = Inr out" and "distinct cs"
  shows "wf_frame out"
  using select_cols_Inr(1,2) [OF assms(1)] assms(2)
  by (simp add: wf_frame_def map_fst_mk_row)

subsection \<open>Left merge\<close>

lemma map_fst_merged_row:
  "map fst (merged_row key ls rs L R l rc) =
     map (left_label key ls R) (df_columns L) @ map (right_label rs L) (right_cols key R)"
  by (simp add: merged_row_def comp_def)

lemma cell_of_merged_left:
  assumes "distinct (map (left_label key ls R) (df_columns L) @
                     map (right_label rs L) (right_cols key R))"
    and "c \<in> set (df_columns L)"
  shows "cell_of (merged_row key ls rs L R l rc) (left_label key ls R c) = cell_of l c"
proof (rule cell_of_distinct)
  show "distinct (map fst (merged_row key ls rs L R l rc))"
    using assms(1) by (simp only: map_fst_merged_row)
  show "(left_label key ls R c, cell_of l c) \<in> set (merged_row key ls rs L R l rc)"
    using assms(2) by (auto simp: merged_row_def)
qed

lemma cell_of_merged_right:
  assumes "distinct (map (left_label key ls R) (df_columns L) @
                     map (right_label rs L) (right_cols key R))"
    and "c \<in> set (right_cols key R)"
  shows "cell_of (merged_row key ls rs L R l rc) (right_label rs L c) = rc c"
proof (rule cell_of_distinct)
  show "distinct (map fst (merged_row key ls rs L R l rc))"
    using assms(1) by (simp only: map_fst_merged_row)
  show "(right_label rs L c, rc c) \<in> set (merged_row key ls rs L R l rc)"
    using assms(2) by (auto simp: merged_row_def)
qed

lemma merged_rows_cases:
  assumes "m \<in> set (merged_rows key ls rs L R l)"
  shows "(\<exists>r \<in> set (df_rows R). cell_of r key = cell_of l key \<and>
            m = merged_row key ls rs L R l (cell_of r)) \<or>
         ((\<forall>r \<in> set (df_rows R). cell_of r key \<noteq> cell_of l key) \<and>
            m = merged_row key ls rs L R l (\<lambda>c. Null))"
proof (cases "filter (\<lambda>r. cell_of r key = cell_of l key) (df_rows R)")
  case Nil
  then have "\<forall>r \<in> set (df_rows R). cell_of r key \<noteq> cell_of l key"
    by (auto simp: filter_empty_conv)
  moreover from Nil assms have "m = merged_row key ls rs L R l (\<lambda>c. Null)"
    by (simp add: merged_rows_def)
  ultimately show ?thesis by blast
next
  case (Cons a as)
  with assms obtain r where "r \<in> set (filter (\<lambda>r. cell_of r key = cell_of l key) (df_rows R))"
    and "m = merged_row key ls rs L R l (cell_of r)"
    by (auto simp: merged_rows_def)
  then show ?thesis by auto
qed

lemma merged_rows_nonempty: "merged_rows key ls rs L R l \<noteq> []"
  by (simp add: merged_rows_def split: list.splits)

lemma merge_left_Inr:
  assumes "merge_left key ls rs L R = Inr out"
  shows "key \<in> set (df_columns L)" and "key \<in> set (df_columns R)"
    and "df_columns out = map (left_label key ls R) (df_columns L) @
                          map (right_label rs L) (right_cols key R)"
    and "distinct (df_columns out)"
    and "df_rows out = concat (map (merged_rows key ls rs L R) (df_rows L))"
  using assms by (auto simp: merge_left_def Let_def split: if_splits)

lemma merge_left_wf:
  assumes "merge_left key ls rs L R = Inr out"
  shows "wf_frame out"
proof -
  note i = merge_left_Inr [OF assms]
  have "map fst m = df_columns out" if "m \<in> set (df_rows out)" for m
  proof -
    from that i(5) obtain l where "m \<in> set (merged_rows key ls rs L R l)" by auto
    from merged_rows_cases [OF this] show ?thesis
      by (auto simp: map_fst_merged_row i(3))
  qed
  with i(4) show ?thesis by (simp add: wf_frame_def)
qed

lemma merged_rows_rel:
  assumes "distinct (map (left_label key ls R) (df_columns L) @
                     map (right_label rs L) (right_cols key R))"
    and "m \<in> set (merged_rows key ls rs L R l)"
  shows "merge_rel key ls rs L R l m"
  using merged_rows_cases [OF assms(2)]
proof
  assume "\<exists>r \<in> set (df_rows R). cell_of r key = cell_of l key \<and>
            m = merged_row key ls rs L R l (cell_of r)"
  then obtain r where r: "r \<in> set (df_rows R)" "cell_of r key = cell_of l key"
    and m: "m = merged_row key ls rs L R l (cell_of r)" by blast
  have "\<forall>c \<in> set (df_columns L). cell_of m (left_label key ls R c) = cell_of l c"
    unfolding m using cell_of_merged_left [OF assms(1)] by blast
  moreover have "\<forall>c \<in> set (right_cols key R). cell_of m (right_label rs L c) = cell_of r c"
    unfolding m using cell_of_merged_right [OF assms(1)] by blast
  ultimately show ?thesis unfolding merge_rel_def using r by blast
next
  assume a: "(\<forall>r \<in> set (df_rows R). cell_of r key \<noteq> cell_of l key) \<and>
            m = merged_row key ls rs L R l (\<lambda>c. Null)"
  then have m: "m = merged_row key ls rs L R l (\<lambda>c. Null)" by blast
  have "\<forall>c \<in> set (df_columns L). cell_of m (left_label key ls R c) = cell_of l c"
    unfolding m using cell_of_merged_left [OF assms(1)] by blast
  moreover have "\<forall>c \<in> set (right_cols key R). cell_of m (right_label rs L c) = Null"
    unfolding m using cell_of_merged_right [OF assms(1)] by blast
  ultimately show ?thesis unfolding merge_rel_def using a by blast
qed

lemma merge_left_step:
  assumes "merge_left key ls rs L R = Inr out"
  shows "row_step (merge_rel key ls rs L R) L out"
proof (rule row_stepI)
  note i = merge_left_Inr [OF assms]
  have d: "distinct (map (left_label key ls R) (df_columns L) @
                     map (right_label rs L) (right_cols key R))"
    using i(3,4) by simp
  { fix l assume l: "l \<in> set (df_rows L)"
    obtain m where m: "m \<in> set (merged_rows key ls rs L R l)"
      using merged_rows_nonempty [of key ls rs L R l] by (cases "merged_rows key ls rs L R l") auto
    with l i(5) have "m \<in> set (df_rows out)" by auto
    with merged_rows_rel [OF d m] show "\<exists>m \<in> set (df_rows out). merge_rel key ls rs L R l m"
      by blast }
  { fix m assume "m \<in> set (df_rows out)"
    with i(5) obtain l where l: "l \<in> set (df_rows L)" and m: "m \<in> set (merged_rows key ls rs L R l)"
      by auto
    with merged_rows_rel [OF d m] show "\<exists>l \<in> set (df_rows L). merge_rel key ls rs L R l m"
      by blast }
qed
lemma left_label_id: "ls = [] \<or> c \<notin> set (right_cols key R) \<Longrightarrow> left_label key ls R c = c"
  by (auto simp: left_label_def)

lemma right_label_id: "c \<notin> set (df_columns L) \<Longrightarrow> right_label rs L c = c"
  by (simp add: right_label_def)

lemma right_cols_select:
  assumes "select_cols cs df = Inr sel"
  shows "set (right_cols key sel) = set cs - {key}"
  using select_cols_Inr(1) [OF assms] by (auto simp: right_cols_def)

lemma merge_cols_left:
  assumes "merge_left key ls rs L R = Inr out" and "c \<in> set (df_columns L)"
  shows "left_label key ls R c \<in> set (df_columns out)"
  using merge_left_Inr(3) [OF assms(1)] assms(2) by simp

lemma merge_cols_right:
  assumes "merge_left key ls rs L R = Inr out" and "c \<in> set (right_cols key R)"
  shows "right_label rs L c \<in> set (df_columns out)"
  using merge_left_Inr(3) [OF assms(1)] assms(2) by simp

lemma merge_cols_origin:
  assumes "merge_left key ls rs L R = Inr out" and "c \<in> set (df_columns out)"
  shows "c \<in> set (df_columns L) \<or> (ls \<noteq> [] \<and> suffix ls c) \<or>
         c \<in> set (right_cols key R) \<or> suffix rs c"
proof -
  from assms merge_left_Inr(3) [OF assms(1)]
  consider c' where "c' \<in> set (df_columns L)" "c = left_label key ls R c'"
    | c' where "c' \<in> set (right_cols key R)" "c = right_label rs L c'"
    by auto
  then show ?thesis
  proof cases
    case 1
    then show ?thesis by (cases "ls = []") (auto simp: left_label_def suffix_def)
  next
    case 2
    then show ?thesis by (auto simp: right_label_def suffix_def)
  qed
qed

subsection \<open>Assigning, dropping and sorting\<close>

lemma assign_col_columns:
  "df_columns (assign_col c f df) =
     (if c \<in> set (df_columns df) then df_columns df else df_columns df @ [c])"
  by (simp add: assign_col_def Let_def)

lemma assign_col_columns_set: "set (df_columns (assign_col c f df)) = insert c (set (df_columns df))"
  by (auto simp: assign_col_columns)

lemma assign_col_rows:
  "df_rows (assign_col c f df) =
     map (\<lambda>r. mk_row (df_columns (assign_col c f df))
                (\<lambda>c'. if c' = c then f r else cell_of r c')) (df_rows df)"
  by (simp add: assign_col_def Let_def)

lemma assign_col_wf: "distinct (df_columns df) \<Longrightarrow> wf_frame (assign_col c f df)"
  by (auto simp: wf_frame_def assign_col_rows map_fst_mk_row assign_col_columns)

lemma assign_col_step:
  "row_step (\<lambda>l m. cell_of m c = f l \<and>
               (\<forall>c' \<in> set (df_columns df). c' \<noteq> c \<longrightarrow> cell_of m c' = cell_of l c'))
     df (assign_col c f df)"
  by (rule row_step_map [OF assign_col_rows])
    (auto simp: cell_of_mk_row assign_col_columns_set)

lemma drop_col_columns: "df_columns (drop_col c df) = filter (\<lambda>c'. c' \<noteq> c) (df_columns df)"
  by (simp add: drop_col_def Let_def)

lemma drop_col_rows:
  "df_rows (drop_col c df) = map (\<lambda>r. mk_row (df_columns (drop_col c df)) (cell_of r)) (df_rows df)"
  by (simp add: drop_col_def Let_def)

lemma drop_col_wf: "distinct (df_columns df) \<Longrightarrow> wf_frame (drop_col c df)"
  by (auto simp: wf_frame_def drop_col_rows map_fst_mk_row drop_col_columns)

lemma drop_col_step:
  "row_step (\<lambda>l m. \<forall>c' \<in> set (df_columns df). c' \<noteq> c \<longrightarrow> cell_of m c' = cell_of l c')
     df (drop_col c df)"
  by (rule row_step_map [OF drop_col_rows]) (auto simp: cell_of_mk_row drop_col_columns)

lemma in_set_map_filter:
  "g x = Some y \<Longrightarrow> x \<in> set xs \<Longrightarrow> y \<in> set (List.map_filter g xs)"
  by (induction xs) (auto simp: map_filter_simps split: option.splits)

lemma apply_col_Inr:
  assumes "apply_col dst src f df = Inr out"
  shows "src \<in> set (df_columns df)"
    and "\<forall>r \<in> set (df_rows df). \<exists>v. f (cell_of r src) = Inr v"
    and "out = assign_col dst (\<lambda>r. case f (cell_of r src) of Inl _ \<Rightarrow> Null | Inr v \<Rightarrow> v) df"
proof -
  show s: "src \<in> set (df_columns df)"
    using assms by (auto simp: apply_col_def split: if_splits)
  let ?es = "List.map_filter (\<lambda>r. case f (cell_of r src) of Inl e \<Rightarrow> Some e | Inr _ \<Rightarrow> None)
               (df_rows df)"
  from assms s have e: "?es = []"
    by (auto simp: apply_col_def split: list.splits)
  show "\<forall>r \<in> set (df_rows df). \<exists>v. f (cell_of r src) = Inr v"
  proof
    fix r assume r: "r \<in> set (df_rows df)"
    show "\<exists>v. f (cell_of r src) = Inr v"
    proof (cases "f (cell_of r src)")
      case (Inl x)
      with r have "x \<in> set ?es" by (intro in_set_map_filter [of _ r]) simp_all
      with e show ?thesis by simp
    next
      case (Inr v) then show ?thesis by blast
    qed
  qed
  from assms s e
  show "out = assign_col dst (\<lambda>r. case f (cell_of r src) of Inl _ \<Rightarrow> Null | Inr v \<Rightarrow> v) df"
    by (simp add: apply_col_def)
qed

lemma set_insort_row: "set (insort_row c x ys) = insert x (set ys)"
  by (induction ys) auto

lemma set_foldr_insort_row: "set (foldr (insort_row c) xs []) = set xs"
  by (induction xs) (simp_all add: set_insort_row)

lemma sort_values_Inr:
  assumes "sort_values c df = Inr out"
  shows "c \<in> set (df_columns df)" and "df_columns out = df_columns df"
    and "set (df_rows out) = set (df_rows df)"
  using assms by (auto simp: sort_values_def set_foldr_insort_row split: if_splits)

lemma sort_values_wf: "sort_values c df = Inr out \<Longrightarrow> wf_frame df \<Longrightarrow> wf_frame out"
  using sort_values_Inr(2,3) [of c df out] by (simp add: wf_frame_def)

lemma use_spine_name_cases:
  assumes "use_spine_name df = Inr out"
  shows "(''name_spine'' \<notin> set (df_columns df) \<and> out = df) \<or>
         (''name_spine'' \<in> set (df_columns df) \<and> ''name'' \<in> set (df_columns df) \<and>
          out = drop_col ''name_spine''
                  (assign_col ''name''
                     (\<lambda>r. fillna (cell_of r ''name'') (cell_of r ''name_spine'')) df))"
  using assms by (auto simp: use_spine_name_def split: if_splits)

subsection \<open>Facts that a step keeps\<close>

lemma merge_keep:
  assumes "merge_rel key ls rs L R l m" and "c \<in> set (df_columns L)"
    and "ls = [] \<or> c \<notin> set (right_cols key R)"
  shows "cell_of m c = cell_of l c"
  using assms(1,2) left_label_id [OF assms(3)] unfolding merge_rel_def by metis

lemma merge_keep_col:
  assumes "merge_left key ls rs L R = Inr out" and "c \<in> set (df_columns L)"
    and "ls = [] \<or> c \<notin> set (right_cols key R)"
  shows "c \<in> set (df_columns out)"
  using merge_cols_left [OF assms(1,2)] left_label_id [OF assms(3)] by metis

lemma merge_new:
  assumes "merge_rel key ls rs L R l m" and "c \<in> set (right_cols key R)"
    and "c \<notin> set (df_columns L)"
  shows "joined R key (cell_of l key) c (cell_of m c)"
proof -
  have i: "right_label rs L c = c" using assms(3) by (rule right_label_id)
  from assms(1) consider
      r where "r \<in> set (df_rows R)" "cell_of r key = cell_of l key"
        "\<forall>c \<in> set (right_cols key R). cell_of m (right_label rs L c) = cell_of r c"
    | "\<forall>r \<in> set (df_rows R). cell_of r key \<noteq> cell_of l key"
        "\<forall>c \<in> set (right_cols key R). cell_of m (right_label rs L c) = Null"
    unfolding merge_rel_def by blast
  then show ?thesis
  proof cases
    case 1
    from 1(3) assms(2) i have "cell_of m c = cell_of r c" by metis
    with 1(1,2) show ?thesis unfolding joined_def by blast
  next
    case 2
    from 2(2) assms(2) i have "cell_of m c = Null" by metis
    with 2(1) show ?thesis unfolding joined_def by blast
  qed
qed

lemma merge_new_col:
  assumes "merge_left key ls rs L R = Inr out" and "c \<in> set (right_cols key R)"
    and "c \<notin> set (df_columns L)"
  shows "c \<in> set (df_columns out)"
  using merge_cols_right [OF assms(1,2)] right_label_id [OF assms(3)] by metis

lemma joined_select:
  assumes "select_cols cs T = Inr sel" and "key \<in> set cs" and "c \<in> set cs"
    and "joined sel key k c v"
  shows "joined T key k c v"
proof -
  note r = select_cols_Inr(2) [OF assms(1)]
  have a: "cell_of (mk_row cs (cell_of t)) key = cell_of t key" for t
    using assms(2) by (simp add: cell_of_mk_row)
  have b: "cell_of (mk_row cs (cell_of t)) c = cell_of t c" for t
    using assms(3) by (simp add: cell_of_mk_row)
  from assms(4) consider
      s where "s \<in> set (df_rows sel)" "cell_of s key = k" "v = cell_of s c"
    | "\<forall>s \<in> set (df_rows sel). cell_of s key \<noteq> k" "v = Null"
    unfolding joined_def by blast
  then show ?thesis
  proof cases
    case 1
    from 1(1) r obtain t where t: "t \<in> set (df_rows T)" "s = mk_row cs (cell_of t)" by auto
    with 1(2,3) a b have "cell_of t key = k" "v = cell_of t c" by simp_all
    with t(1) show ?thesis unfolding joined_def by blast
  next
    case 2
    have "cell_of t key \<noteq> k" if "t \<in> set (df_rows T)" for t
    proof -
      from that r have "mk_row cs (cell_of t) \<in> set (df_rows sel)" by simp
      with 2(1) a show ?thesis by metis
    qed
    with 2(2) show ?thesis unfolding joined_def by blast
  qed
qed

lemma merge_origin_plain:
  assumes "merge_left key ls rs L R = Inr out" and "c \<in> set (df_columns out)"
    and "plain_col c"
    and "ls \<in> {[], ''_x'', ''_y'', ''_spine'', ''_dup''}"
    and "rs \<in> {''_x'', ''_y'', ''_spine'', ''_dup''}"
  shows "c \<in> set (df_columns L) \<or> c \<in> set (right_cols key R)"
proof -
  have "\<not> (ls \<noteq> [] \<and> suffix ls c)" using assms(3,4) unfolding plain_col_def by blast
  moreover have "\<not> suffix rs c" using assms(3,5) unfolding plain_col_def by blast
  ultimately show ?thesis using merge_cols_origin [OF assms(1,2)] by blast
qed

lemma in_added_upto:
  "c \<in> set (added_upto k) \<longleftrightarrow> (\<exists>(i, cs) \<in> set added_steps. i \<le> k \<and> c \<in> set cs)"
  unfolding added_upto_def by auto

lemma in_added_upto_mono:
  assumes "j \<le> k" and "c \<in> set (added_upto j)"
  shows "c \<in> set (added_upto k)"
proof -
  from assms(2) obtain i cs where "(i, cs) \<in> set added_steps" "i \<le> j" "c \<in> set cs"
    unfolding in_added_upto by blast
  with assms(1) have "(i, cs) \<in> set added_steps \<and> i \<le> k \<and> c \<in> set cs" by simp
  then show ?thesis unfolding in_added_upto by blast
qed

lemma origin_inv_mono:
  assumes "origin_inv j data df'" and "j \<le> k"
    and "\<And>c. c \<in> set (df_columns df) \<Longrightarrow> plain_col c \<Longrightarrow>
            c \<in> set (df_columns df') \<or> c \<in> set (added_upto k)"
  shows "origin_inv k data df"
  unfolding origin_inv_def
proof (intro ballI impI)
  fix c assume c: "c \<in> set (df_columns df)" "plain_col c"
  from assms(3) [OF c] show "c \<in> set (df_columns (hiring data)) \<or> c \<in> set (added_upto k)"
  proof
    assume "c \<in> set (df_columns df')"
    with assms(1) c(2) have "c \<in> set (df_columns (hiring data)) \<or> c \<in> set (added_upto j)"
      unfolding origin_inv_def by blast
    with in_added_upto_mono [OF assms(2)] show ?thesis by blast
  qed blast
qed

lemma origin_absent:
  assumes "origin_inv k data df" and "plain_col c"
    and "c \<notin> set (df_columns (hiring data))" and "c \<notin> set (added_upto k)"
  shows "c \<notin> set (df_columns df)"
  using assms unfolding origin_inv_def by blast

lemma keep_tracked:
  assumes "\<forall>c \<in> S. c \<in> cs' \<and> P c (cell_of m' c)"
    and "\<And>c. c \<in> cs' \<Longrightarrow> c \<notin> set U \<Longrightarrow> c \<in> cs \<and> cell_of m c = cell_of m' c"
    and "\<And>c. c \<in> S \<Longrightarrow> c \<notin> set U"
  shows "\<forall>c \<in> S. c \<in> cs \<and> P c (cell_of m c)"
proof
  fix c assume c: "c \<in> S"
  with assms(1) have a: "c \<in> cs'" "P c (cell_of m' c)" by blast+
  from assms(2) [OF a(1) assms(3) [OF c]] a(2) show "c \<in> cs \<and> P c (cell_of m c)" by simp
qed

lemma added_step_upto:
  "(i, cs) \<in> set added_steps \<Longrightarrow> i \<le> k \<Longrightarrow> c \<in> set cs \<Longrightarrow> c \<in> set (added_upto k)"
  unfolding in_added_upto by blast

lemma added_steps_mem:
  "(1, [''momentum_score'', ''momentum_tier'', ''momentum_rank'']) \<in> set added_steps"
  "(2, spine_cols) \<in> set added_steps"
  "(4, [''funding_stage'']) \<in> set added_steps"
  "(5, [''funding_stage_label'']) \<in> set added_steps"
  "(6, [''primary_industry'']) \<in> set added_steps"
  "(7, [''has_job_postings'']) \<in> set added_steps"
  "(8, [''total_funding_display'']) \<in> set added_steps"
  by (simp_all add: added_steps_def)

lemma not_name:
  "''momentum_score'' \<noteq> ''name''" "''momentum_tier'' \<noteq> ''name''"
  "''momentum_rank'' \<noteq> ''name''" "''funding_stage'' \<noteq> ''name''"
  "''funding_stage_label'' \<noteq> ''name''" "''primary_industry'' \<noteq> ''name''"
  "''has_job_postings'' \<noteq> ''name''" "''total_funding_display'' \<noteq> ''name''"
  by simp_all

text \<open>
  A step that keeps every column outside \<open>U\<close> (and a non-null name) keeps what is known,
  when \<open>U\<close> holds only reserved labels that no earlier step added.
\<close>

lemma master_facts_keep:
  assumes f: "master_facts j data df' h m'"
    and keep: "\<And>c. c \<in> set (df_columns df') \<Longrightarrow> c \<notin> set U \<Longrightarrow>
                 c \<in> set (df_columns df) \<and> cell_of m c = cell_of m' c"
    and name: "''name'' \<in> set (df_columns df') \<Longrightarrow> cell_of m' ''name'' \<noteq> Null \<Longrightarrow>
                 ''name'' \<in> set (df_columns df) \<and> cell_of m ''name'' = cell_of m' ''name''"
    and U: "\<forall>c \<in> set U. c \<in> set reserved_cols \<and> (c = ''name'' \<or> c \<notin> set (added_upto j))"
    and j: "j < 8"
  shows "master_facts j data df h m"
proof -
  note f' = f [unfolded master_facts_def Let_def]
  note c2 = conjunct2
  have out: "c \<notin> set U" if "c \<in> set (added_upto j)" "c \<noteq> ''name''" for c
    using U that by blast
  show ?thesis
    unfolding master_facts_def Let_def
  proof (intro conjI impI, goal_cases)
    case 1
    show ?case
      by (rule keep_tracked [where P = "\<lambda>c v. v = cell_of h c", OF f' [THEN conjunct1] keep])
        (use U in blast)+
  next
    case 2
    show ?case
    proof (intro ballI impI)
      fix c assume c: "c \<in> {''name''} \<inter> set (df_columns (hiring data))"
        and n: "cell_of h ''name'' \<noteq> Null"
      from f' [THEN c2, THEN conjunct1] c n
      have a: "c \<in> set (df_columns df')" "cell_of m' c = cell_of h c" by blast+
      from c have e: "c = ''name''" by simp
      from name a n e show "c \<in> set (df_columns df) \<and> cell_of m c = cell_of h c" by simp
    qed
  next
    case 3
    note g = f' [THEN c2, THEN c2, THEN conjunct1, THEN mp, OF 3]
    show ?case
    proof (rule keep_tracked [where
          P = "\<lambda>c v. joined (scores data) ''company_id'' (cell_of h ''company_id'') c v",
          OF g keep])
      fix c assume "c \<in> {''momentum_score'', ''momentum_tier'', ''momentum_rank''} -
                        set (df_columns (hiring data))"
      then have "c \<in> set [''momentum_score'', ''momentum_tier'', ''momentum_rank'']" by simp
      from added_step_upto [OF added_steps_mem(1) 3 this] this show "c \<notin> set U"
        by (intro out) (auto simp: not_name)
    qed
  next
    case 4
    note g = f' [THEN c2, THEN c2, THEN c2, THEN conjunct1, THEN mp, OF 4]
    show ?case
    proof (rule keep_tracked [where
          P = "\<lambda>c v. joined (spine data) ''company_id'' (cell_of h ''company_id'') c v",
          OF g keep])
      fix c assume c: "c \<in> set spine_cols \<inter> set (df_columns (spine data)) -
                        {''company_id'', ''name''} - set (df_columns (hiring data))"
      then have "c \<in> set spine_cols" "c \<noteq> ''name''" by simp_all
      with added_step_upto [OF added_steps_mem(2) 4] show "c \<notin> set U"
        by (intro out) blast+
    qed
  next
    case 5
    note g = f' [THEN c2, THEN c2, THEN c2, THEN c2, THEN conjunct1, THEN mp, OF 5]
    show ?case
    proof (rule keep_tracked [where
          P = "\<lambda>c v. joined (scores data) ''company_id'' (cell_of h ''company_id'') c v",
          OF g keep])
      fix c assume "c \<in> {''funding_stage''} - set (df_columns (hiring data))"
      then have "c \<in> set [''funding_stage'']" by simp
      from added_step_upto [OF added_steps_mem(3) 5 this] this show "c \<notin> set U"
        by (intro out) (auto simp: not_name)
    qed
  next
    case 6
    note g = f' [THEN c2, THEN c2, THEN c2, THEN c2, THEN c2, THEN conjunct1, THEN mp, OF 6]
    show ?case
    proof (rule keep_tracked [where P = "\<lambda>c v. \<exists>l \<in> set stage_labels. v = Str l", OF g keep])
      fix c :: string assume "c \<in> {''funding_stage_label''}"
      then have "c \<in> set [''funding_stage_label'']" by simp
      from added_step_upto [OF added_steps_mem(4) 6 this] this show "c \<notin> set U"
        by (intro out) (auto simp: not_name)
    qed
  next
    case 7
    note g = f' [THEN c2, THEN c2, THEN c2, THEN c2, THEN c2, THEN c2, THEN conjunct1,
        THEN mp, OF 7]
    show ?case
    proof (rule keep_tracked [where
          P = "\<lambda>c v. (\<exists>f \<in> set (df_rows (features data)).
                        cell_of f ''company_id'' = cell_of h ''company_id'' \<and>
                        (\<exists>l \<in> set industry_labels. v = Str l)) \<or>
                     ((\<forall>f \<in> set (df_rows (features data)).
                        cell_of f ''company_id'' \<noteq> cell_of h ''company_id'') \<and> v = Null)",
          OF g keep])
      fix c assume "c \<in> {''primary_industry''} - set (df_columns (hiring data))"
      then have "c \<in> set [''primary_industry'']" by simp
      from added_step_upto [OF added_steps_mem(5) 7 this] this show "c \<notin> set U"
        by (intro out) (auto simp: not_name)
    qed
  next
    case 8
    note g = f' [THEN c2, THEN c2, THEN c2, THEN c2, THEN c2, THEN c2, THEN c2, THEN conjunct1,
        THEN mp, OF 8]
    show ?case
    proof (rule keep_tracked [where
          P = "\<lambda>c v. joined (features data) ''company_id'' (cell_of h ''company_id'') c v",
          OF g keep])
      fix c assume "c \<in> {''has_job_postings''} \<inter> set (df_columns (features data)) -
                        set (df_columns (hiring data))"
      then have "c \<in> set [''has_job_postings'']" by simp
      from added_step_upto [OF added_steps_mem(6) 8 this] this show "c \<notin> set U"
        by (intro out) (auto simp: not_name)
    qed
  next
    case 9
    with j show ?case by simp
  qed
qed

text \<open>What step \<open>k\<close> adds to what was known after step \<open>j\<close>.\<close>

lemma master_facts_raise:
  assumes f: "master_facts j data df h m" and jk: "j \<le> k"
    and n1: "j < 1 \<Longrightarrow> 1 \<le> k \<Longrightarrow>
       \<forall>c \<in> {''momentum_score'', ''momentum_tier'', ''momentum_rank''} -
              set (df_columns (hiring data)).
         c \<in> set (df_columns df) \<and>
         joined (scores data) ''company_id'' (cell_of h ''company_id'') c (cell_of m c)"
    and n2: "j < 2 \<Longrightarrow> 2 \<le> k \<Longrightarrow>
       \<forall>c \<in> set spine_cols \<inter> set (df_columns (spine data)) - {''company_id'', ''name''} -
              set (df_columns (hiring data)).
         c \<in> set (df_columns df) \<and>
         joined (spine data) ''company_id'' (cell_of h ''company_id'') c (cell_of m c)"
    and n4: "j < 4 \<Longrightarrow> 4 \<le> k \<Longrightarrow>
       \<forall>c \<in> {''funding_stage''} - set (df_columns (hiring data)).
         c \<in> set (df_columns df) \<and>
         joined (scores data) ''company_id'' (cell_of h ''company_id'') c (cell_of m c)"
    and n5: "j < 5 \<Longrightarrow> 5 \<le> k \<Longrightarrow>
       \<forall>c \<in> {''funding_stage_label''}.
         c \<in> set (df_columns df) \<and> (\<exists>l \<in> set stage_labels. cell_of m c = Str l)"
    and n6: "j < 6 \<Longrightarrow> 6 \<le> k \<Longrightarrow>
       \<forall>c \<in> {''primary_industry''} - set (df_columns (hiring data)).
         c \<in> set (df_columns df) \<and>
         ((\<exists>f \<in> set (df_rows (features data)).
              cell_of f ''company_id'' = cell_of h ''company_id'' \<and>
              (\<exists>l \<in> set industry_labels. cell_of m c = Str l)) \<or>
          ((\<forall>f \<in> set (df_rows (features data)).
              cell_of f ''company_id'' \<noteq> cell_of h ''company_id'') \<and>
           cell_of m c = Null))"
    and n7: "j < 7 \<Longrightarrow> 7 \<le> k \<Longrightarrow>
       \<forall>c \<in> {''has_job_postings''} \<inter> set (df_columns (features data)) -
              set (df_columns (hiring data)).
         c \<in> set (df_columns df) \<and>
         joined (features data) ''company_id'' (cell_of h ''company_id'') c (cell_of m c)"
    and n8: "j < 8 \<Longrightarrow> 8 \<le> k \<Longrightarrow>
       \<forall>c \<in> {''total_funding_display''}.
         c \<in> set (df_columns df) \<and>
         (\<exists>s. format_usd (cell_of m ''total_funding_usd'') = Inr s \<and> cell_of m c = Str s)"
  shows "master_facts k data df h m"
proof -
  note f' = f [unfolded master_facts_def Let_def]
  note c2 = conjunct2
  show ?thesis
    unfolding master_facts_def Let_def
  proof (intro conjI impI, goal_cases)
    case 1 show ?case by (rule f' [THEN conjunct1])
  next
    case 2 show ?case by (rule f' [THEN c2, THEN conjunct1])
  next
    case 3 show ?case
    proof (cases "1 \<le> j")
      case True
      then show ?thesis by (rule f' [THEN c2, THEN c2, THEN conjunct1, THEN mp])
    next
      case False with 3 n1 show ?thesis by simp
    qed
  next
    case 4 show ?case
    proof (cases "2 \<le> j")
      case True
      then show ?thesis by (rule f' [THEN c2, THEN c2, THEN c2, THEN conjunct1, THEN mp])
    next
      case False with 4 n2 show ?thesis by simp
    qed
  next
    case 5 show ?case
    proof (cases "4 \<le> j")
      case True
      then show ?thesis
        by (rule f' [THEN c2, THEN c2, THEN c2, THEN c2, THEN conjunct1, THEN mp])
    next
      case False with 5 n4 show ?thesis by simp
    qed
  next
    case 6 show ?case
    proof (cases "5 \<le> j")
      case True
      then show ?thesis
        by (rule f' [THEN c2, THEN c2, THEN c2, THEN c2, THEN c2, THEN conjunct1, THEN mp])
    next
      case False with 6 n5 show ?thesis by simp
    qed
  next
    case 7 show ?case
    proof (cases "6 \<le> j")
      case True
      then show ?thesis
        by (rule f' [THEN c2, THEN c2, THEN c2, THEN c2, THEN c2, THEN c2, THEN conjunct1,
              THEN mp])
    next
      case False with 7 n6 show ?thesis by simp
    qed
  next
    case 8 show ?case
    proof (cases "7 \<le> j")
      case True
      then show ?thesis
        by (rule f' [THEN c2, THEN c2, THEN c2, THEN c2, THEN c2, THEN c2, THEN c2,
              THEN conjunct1, THEN mp])
    next
      case False with 8 n7 show ?thesis by simp
    qed
  next
    case 9 show ?case
    proof (cases "8 \<le> j")
      case True
      then show ?thesis
        by (rule f' [THEN c2, THEN c2, THEN c2, THEN c2, THEN c2, THEN c2, THEN c2, THEN c2,
              THEN mp])
    next
      case False with 9 n8 show ?thesis by simp
    qed
  qed
qed

subsection \<open>The steps of \<open>prepare_master_table\<close>\<close>

lemma master_facts_start: "master_facts 0 data (hiring data) h h"
  by (simp add: master_facts_def Let_def) blast

lemma company_id_not_reserved: "''company_id'' \<notin> set reserved_cols"
  by code_simp

lemma master_facts_key:
  assumes "master_facts j data df h m" and "''company_id'' \<in> set (df_columns (hiring data))"
  shows "cell_of m ''company_id'' = cell_of h ''company_id''"
    and "''company_id'' \<in> set (df_columns df)"
proof -
  have "''company_id'' \<in> set (df_columns (hiring data)) - set reserved_cols"
    using assms(2) company_id_not_reserved by blast
  with assms(1) [unfolded master_facts_def Let_def, THEN conjunct1]
  show "cell_of m ''company_id'' = cell_of h ''company_id''"
    and "''company_id'' \<in> set (df_columns df)" by blast+
qed

lemma merge_stage:
  assumes prev: "row_step (master_facts j data L) (hiring data) L"
    and mrg: "merge_left ''company_id'' ls rs L R = Inr out"
    and U: "ls = [] \<or> set (right_cols ''company_id'' R) \<subseteq> set U"
    and Uok: "\<forall>c \<in> set U. c \<in> set reserved_cols \<and> (c = ''name'' \<or> c \<notin> set (added_upto j))"
    and name: "''name'' \<notin> set U"
    and j: "j < 8"
  shows "row_step (\<lambda>h m. master_facts j data out h m \<and>
            (\<exists>l. master_facts j data L h l \<and> merge_rel ''company_id'' ls rs L R l m))
           (hiring data) out"
proof (rule row_step_mono [OF row_step_trans [OF prev merge_left_step [OF mrg]]])
  fix h m
  assume "\<exists>l. master_facts j data L h l \<and> merge_rel ''company_id'' ls rs L R l m"
  then obtain l where f: "master_facts j data L h l"
    and r: "merge_rel ''company_id'' ls rs L R l m" by blast
  have keep: "c \<in> set (df_columns out) \<and> cell_of m c = cell_of l c"
    if c: "c \<in> set (df_columns L)" "c \<notin> set U" for c
  proof -
    have "ls = [] \<or> c \<notin> set (right_cols ''company_id'' R)" using U c(2) by blast
    from merge_keep_col [OF mrg c(1) this] merge_keep [OF r c(1) this] show ?thesis by simp
  qed
  have "master_facts j data out h m"
    by (rule master_facts_keep [OF f keep _ Uok j]) (use keep name in blast)+
  with f r show "master_facts j data out h m \<and>
            (\<exists>l. master_facts j data L h l \<and> merge_rel ''company_id'' ls rs L R l m)"
    by blast
qed

lemma merge_stage_origin:
  assumes prev: "origin_inv j data L"
    and mrg: "merge_left key ls rs L R = Inr out"
    and new: "set (right_cols key R) \<subseteq> set (added_upto k)"
    and jk: "j \<le> k"
    and ls: "ls \<in> {[], ''_x'', ''_y'', ''_spine'', ''_dup''}"
    and rs: "rs \<in> {''_x'', ''_y'', ''_spine'', ''_dup''}"
  shows "origin_inv k data out"
proof (rule origin_inv_mono [OF prev jk])
  fix c assume "c \<in> set (df_columns out)" "plain_col c"
  from merge_origin_plain [OF mrg this ls rs] new
  show "c \<in> set (df_columns L) \<or> c \<in> set (added_upto k)" by blast
qed

lemma merge_select_new:
  assumes sel: "select_cols cs T = Inr sel"
    and mrg: "merge_left key ls rs L sel = Inr out"
    and r: "merge_rel key ls rs L sel l m"
    and c: "c \<in> set cs" "c \<noteq> key" "c \<notin> set (df_columns L)"
  shows "c \<in> set (df_columns out) \<and> joined T key (cell_of l key) c (cell_of m c)"
proof -
  have k: "key \<in> set cs"
    using merge_left_Inr(2) [OF mrg] select_cols_Inr(1) [OF sel] by simp
  have rc: "c \<in> set (right_cols key sel)"
    using c(1,2) right_cols_select [OF sel, of key] by simp
  from merge_new_col [OF mrg rc c(3)]
    joined_select [OF sel k c(1) merge_new [OF r rc c(3)]]
  show ?thesis by simp
qed

lemma apply_stage:
  assumes prev: "row_step (master_facts j data df') (hiring data) df'"
    and ap: "apply_col dst src f df' = Inr out"
    and Uok: "\<forall>c \<in> set [dst]. c \<in> set reserved_cols \<and> (c = ''name'' \<or> c \<notin> set (added_upto j))"
    and name: "dst \<noteq> ''name''"
    and j: "j < 8"
  shows "row_step (\<lambda>h m. master_facts j data out h m \<and>
            (\<exists>l v. f (cell_of l src) = Inr v \<and> cell_of m dst = v \<and>
                   (src \<noteq> dst \<longrightarrow> cell_of m src = cell_of l src)))
           (hiring data) out"
    and "dst \<in> set (df_columns out)"
    and "set (df_columns out) = insert dst (set (df_columns df'))"
proof -
  let ?g = "\<lambda>r. case f (cell_of r src) of Inl _ \<Rightarrow> Null | Inr v \<Rightarrow> v"
  note a = apply_col_Inr [OF ap]
  show cols: "set (df_columns out) = insert dst (set (df_columns df'))"
    unfolding a(3) by (rule assign_col_columns_set)
  then show "dst \<in> set (df_columns out)" by simp
  have st: "row_step (\<lambda>l m. cell_of m dst = ?g l \<and>
               (\<forall>c' \<in> set (df_columns df'). c' \<noteq> dst \<longrightarrow> cell_of m c' = cell_of l c'))
             df' out"
    unfolding a(3) by (rule assign_col_step)
  have mem: "row_step (\<lambda>l m. l \<in> set (df_rows df')) df' out"
    using st unfolding row_step_def by blast
  have st': "row_step (\<lambda>l m. l \<in> set (df_rows df') \<and> cell_of m dst = ?g l \<and>
               (\<forall>c' \<in> set (df_columns df'). c' \<noteq> dst \<longrightarrow> cell_of m c' = cell_of l c'))
             df' out"
    using st unfolding row_step_def by blast
  show "row_step (\<lambda>h m. master_facts j data out h m \<and>
            (\<exists>l v. f (cell_of l src) = Inr v \<and> cell_of m dst = v \<and>
                   (src \<noteq> dst \<longrightarrow> cell_of m src = cell_of l src)))
           (hiring data) out"
  proof (rule row_step_mono [OF row_step_trans [OF prev st']])
    fix h m
    assume "\<exists>l. master_facts j data df' h l \<and>
              (l \<in> set (df_rows df') \<and> cell_of m dst = ?g l \<and>
               (\<forall>c' \<in> set (df_columns df'). c' \<noteq> dst \<longrightarrow> cell_of m c' = cell_of l c'))"
    then obtain l where f: "master_facts j data df' h l" and l: "l \<in> set (df_rows df')"
      and d: "cell_of m dst = ?g l"
      and k: "\<forall>c' \<in> set (df_columns df'). c' \<noteq> dst \<longrightarrow> cell_of m c' = cell_of l c'"
      by blast
    have keep: "c \<in> set (df_columns out) \<and> cell_of m c = cell_of l c"
      if "c \<in> set (df_columns df')" "c \<notin> set [dst]" for c
      using that k cols by simp
    have mf: "master_facts j data out h m"
      by (rule master_facts_keep [OF f keep _ Uok j]) (use keep name in simp)+
    from a(2) l obtain v where v: "f (cell_of l src) = Inr v" by blast
    with d have "cell_of m dst = v" by simp
    moreover have "src \<noteq> dst \<longrightarrow> cell_of m src = cell_of l src" using k a(1) by blast
    ultimately show "master_facts j data out h m \<and>
            (\<exists>l v. f (cell_of l src) = Inr v \<and> cell_of m dst = v \<and>
                   (src \<noteq> dst \<longrightarrow> cell_of m src = cell_of l src))"
      using mf v by blast
  qed
qed

lemma prepare_master_table_stages:
  assumes "prepare_master_table data = Inr master"
  obtains scores_sel spine_sel df1 df2 df3 scores_full df4 df5 ind_sel ind_df df6 df7 df8
  where "select_cols [''company_id'', ''momentum_score'', ''momentum_tier'', ''momentum_rank'']
           (scores data) = Inr scores_sel"
    and "select_cols (filter (\<lambda>c. c \<in> set (df_columns (spine data))) spine_cols) (spine data)
           = Inr spine_sel"
    and "merge_left ''company_id'' ''_x'' ''_y'' (hiring data) scores_sel = Inr df1"
    and "merge_left ''company_id'' [] ''_spine'' df1 spine_sel = Inr df2"
    and "use_spine_name df2 = Inr df3"
    and "select_cols [''company_id'', ''funding_stage''] (scores data) = Inr scores_full"
    and "merge_left ''company_id'' [] ''_dup'' df3 scores_full = Inr df4"
    and "apply_col ''funding_stage_label'' ''funding_stage'' (\<lambda>v. Inr (stage_label v)) df4
           = Inr df5"
    and "select_cols (''company_id'' # filter (prefix ''ind_'') (df_columns (features data)))
           (features data) = Inr ind_sel"
    and "select_cols [''company_id'', ''primary_industry'']
           (assign_col ''primary_industry'' (\<lambda>r. Str (derive_primary_industry r)) ind_sel)
           = Inr ind_df"
    and "merge_left ''company_id'' ''_x'' ''_y'' df5 ind_df = Inr df6"
    and "(if ''has_job_postings'' \<in> set (df_columns (features data)) then
            bind_err (select_cols [''company_id'', ''has_job_postings''] (features data))
              (\<lambda>jobs. merge_left ''company_id'' ''_x'' ''_y'' df6 jobs)
          else Inr df6) = Inr df7"
    and "apply_col ''total_funding_display'' ''total_funding_usd''
           (\<lambda>v. map_sum id Str (format_usd v)) df7 = Inr df8"
    and "sort_values ''hiring_rank'' df8 = Inr master"
  using assms unfolding prepare_master_table_def bind_err_eq_Inr
  by (elim exE conjE) (rule that)

lemma label_facts:
  "\<forall>c \<in> set [''momentum_score'', ''momentum_tier'', ''momentum_rank''].
      c \<in> set reserved_cols \<and> (c = ''name'' \<or> c \<notin> set (added_upto 0))"
  "\<forall>c \<in> set [''momentum_score'', ''momentum_tier'', ''momentum_rank'']. c \<in> set (added_upto 1)"
  "\<forall>c \<in> set spine_cols. plain_col c \<and> c \<notin> set (added_upto 1)"
  "\<forall>c \<in> set [''name'', ''name_spine''].
      c \<in> set reserved_cols \<and> (c = ''name'' \<or> c \<notin> set (added_upto 2))"
  "plain_col ''funding_stage'' \<and> ''funding_stage'' \<notin> set (added_upto 2)"
  "\<forall>c \<in> set [''funding_stage_label''].
      c \<in> set reserved_cols \<and> (c = ''name'' \<or> c \<notin> set (added_upto 4))"
  "plain_col ''primary_industry'' \<and> ''primary_industry'' \<notin> set (added_upto 5)"
  "\<forall>c \<in> set [''primary_industry''].
      c \<in> set reserved_cols \<and> (c = ''name'' \<or> c \<notin> set (added_upto 5))"
  "plain_col ''has_job_postings'' \<and> ''has_job_postings'' \<notin> set (added_upto 6)"
  "\<forall>c \<in> set [''has_job_postings''].
      c \<in> set reserved_cols \<and> (c = ''name'' \<or> c \<notin> set (added_upto 6))"
  "\<forall>c \<in> set [''total_funding_display''].
      c \<in> set reserved_cols \<and> (c = ''name'' \<or> c \<notin> set (added_upto 7))"
  by code_simp+

lemma added_upto_subset:
  "set spine_cols \<subseteq> set (added_upto 2)"
  "set [''funding_stage''] \<subseteq> set (added_upto 4)"
  "set [''funding_stage_label''] \<subseteq> set (added_upto 5)"
  "set [''primary_industry''] \<subseteq> set (added_upto 6)"
  "set [''has_job_postings''] \<subseteq> set (added_upto 7)"
  "set [''total_funding_display''] \<subseteq> set (added_upto 8)"
  using added_step_upto [OF added_steps_mem(2), of 2]
    added_step_upto [OF added_steps_mem(3), of 4]
    added_step_upto [OF added_steps_mem(4), of 5]
    added_step_upto [OF added_steps_mem(5), of 6]
    added_step_upto [OF added_steps_mem(6), of 7]
    added_step_upto [OF added_steps_mem(7), of 8]
  by (simp_all add: subset_iff)

lemma suffix_choices:
  "''_x'' \<in> {[], ''_x'', ''_y'', ''_spine'', ''_dup''}"
  "[] \<in> {[], ''_x'', ''_y'', ''_spine'', ''_dup''}"
  "''_y'' \<in> {''_x'', ''_y'', ''_spine'', ''_dup''}"
  "''_spine'' \<in> {''_x'', ''_y'', ''_spine'', ''_dup''}"
  "''_dup'' \<in> {''_x'', ''_y'', ''_spine'', ''_dup''}"
  by blast+

lemma stage1:
  assumes s1: "select_cols [''company_id'', ''momentum_score'', ''momentum_tier'',
                 ''momentum_rank''] (scores data) = Inr scores_sel"
    and s3: "merge_left ''company_id'' ''_x'' ''_y'' (hiring data) scores_sel = Inr df1"
  shows "row_step (master_facts 1 data df1) (hiring data) df1" and "origin_inv 1 data df1"
proof -
  note cid = merge_left_Inr(1) [OF s3]
  have o0: "origin_inv 0 data (hiring data)" by (simp add: origin_inv_def)
  have p0: "row_step (master_facts 0 data (hiring data)) (hiring data) (hiring data)"
    by (rule row_step_set) (simp, rule master_facts_start)
  have rc: "set (right_cols ''company_id'' scores_sel) =
            set [''momentum_score'', ''momentum_tier'', ''momentum_rank'']"
    unfolding right_cols_select [OF s1] by simp
  have U': "''_x'' = [] \<or> set (right_cols ''company_id'' scores_sel) \<subseteq>
            set [''momentum_score'', ''momentum_tier'', ''momentum_rank'']"
    unfolding rc by blast
  have nm: "''name'' \<notin> set [''momentum_score'', ''momentum_tier'', ''momentum_rank'']"
    by simp
  show "row_step (master_facts 1 data df1) (hiring data) df1"
  proof (rule row_step_mono [OF merge_stage [OF p0 s3 U' label_facts(1) nm]])
    show "(0::nat) < 8" by simp
    fix h m
    assume "master_facts 0 data df1 h m \<and>
      (\<exists>l. master_facts 0 data (hiring data) h l \<and>
           merge_rel ''company_id'' ''_x'' ''_y'' (hiring data) scores_sel l m)"
    then obtain l where f: "master_facts 0 data df1 h m"
      and fl: "master_facts 0 data (hiring data) h l"
      and r: "merge_rel ''company_id'' ''_x'' ''_y'' (hiring data) scores_sel l m" by blast
    note k = master_facts_key(1) [OF fl cid]
    show "master_facts 1 data df1 h m"
    proof (rule master_facts_raise [OF f, of 1])
      show "\<forall>c \<in> {''momentum_score'', ''momentum_tier'', ''momentum_rank''} -
              set (df_columns (hiring data)).
         c \<in> set (df_columns df1) \<and>
         joined (scores data) ''company_id'' (cell_of h ''company_id'') c (cell_of m c)"
      proof
        fix c assume c: "c \<in> {''momentum_score'', ''momentum_tier'', ''momentum_rank''} -
              set (df_columns (hiring data))"
        then have "c \<in> set [''company_id'', ''momentum_score'', ''momentum_tier'',
                 ''momentum_rank'']" "c \<noteq> ''company_id''"
          "c \<notin> set (df_columns (hiring data))" by auto
        from merge_select_new [OF s1 s3 r this]
        show "c \<in> set (df_columns df1) \<and>
           joined (scores data) ''company_id'' (cell_of h ''company_id'') c (cell_of m c)"
          unfolding k .
      qed
    qed simp_all
  qed
  show "origin_inv 1 data df1"
    by (rule merge_stage_origin [OF o0 s3 _ _ suffix_choices(1) suffix_choices(3)])
      (use rc label_facts(2) in auto)
qed

lemma stage2:
  assumes s2: "select_cols (filter (\<lambda>c. c \<in> set (df_columns (spine data))) spine_cols)
                 (spine data) = Inr spine_sel"
    and s4: "merge_left ''company_id'' [] ''_spine'' df1 spine_sel = Inr df2"
    and p1: "row_step (master_facts 1 data df1) (hiring data) df1"
    and o1: "origin_inv 1 data df1"
    and cid: "''company_id'' \<in> set (df_columns (hiring data))"
  shows "row_step (master_facts 2 data df2) (hiring data) df2" and "origin_inv 2 data df2"
proof -
  have rc: "set (right_cols ''company_id'' spine_sel) \<subseteq> set spine_cols"
    unfolding right_cols_select [OF s2] by auto
  have E: "\<forall>c \<in> set ([] :: string list).
             c \<in> set reserved_cols \<and> (c = ''name'' \<or> c \<notin> set (added_upto 1))" by simp
  show "row_step (master_facts 2 data df2) (hiring data) df2"
  proof (rule row_step_mono [OF merge_stage [OF p1 s4 _ E]])
    show "([] :: string) = [] \<or> set (right_cols ''company_id'' spine_sel) \<subseteq> set []" by simp
    show "''name'' \<notin> set []" by simp
    show "(1::nat) < 8" by simp
    fix h m
    assume "master_facts 1 data df2 h m \<and>
      (\<exists>l. master_facts 1 data df1 h l \<and>
           merge_rel ''company_id'' [] ''_spine'' df1 spine_sel l m)"
    then obtain l where f: "master_facts 1 data df2 h m"
      and fl: "master_facts 1 data df1 h l"
      and r: "merge_rel ''company_id'' [] ''_spine'' df1 spine_sel l m" by blast
    note k = master_facts_key(1) [OF fl cid]
    show "master_facts 2 data df2 h m"
    proof (rule master_facts_raise [OF f, of 2])
      show "\<forall>c \<in> set spine_cols \<inter> set (df_columns (spine data)) - {''company_id'', ''name''} -
              set (df_columns (hiring data)).
         c \<in> set (df_columns df2) \<and>
         joined (spine data) ''company_id'' (cell_of h ''company_id'') c (cell_of m c)"
      proof
        fix c assume c: "c \<in> set spine_cols \<inter> set (df_columns (spine data)) -
              {''company_id'', ''name''} - set (df_columns (hiring data))"
        then have a: "c \<in> set (filter (\<lambda>c. c \<in> set (df_columns (spine data))) spine_cols)"
          "c \<noteq> ''company_id''" by auto
        from c label_facts(3) have "plain_col c" "c \<notin> set (added_upto 1)"
          "c \<notin> set (df_columns (hiring data))" by blast+
        from origin_absent [OF o1 this(1) this(3) this(2)]
        have "c \<notin> set (df_columns df1)" .
        from merge_select_new [OF s2 s4 r a this]
        show "c \<in> set (df_columns df2) \<and>
           joined (spine data) ''company_id'' (cell_of h ''company_id'') c (cell_of m c)"
          unfolding k .
      qed
    qed simp_all
  qed
  show "origin_inv 2 data df2"
    by (rule merge_stage_origin [OF o1 s4 _ _ suffix_choices(2) suffix_choices(4)])
      (use rc added_upto_subset(1) in auto)
qed

lemma use_spine_name_stage:
  assumes s5: "use_spine_name df2 = Inr df3"
  shows "row_step (\<lambda>l m.
           (\<forall>c \<in> set (df_columns df2). c \<notin> set [''name'', ''name_spine''] \<longrightarrow>
              c \<in> set (df_columns df3) \<and> cell_of m c = cell_of l c) \<and>
           (''name'' \<in> set (df_columns df2) \<longrightarrow> cell_of l ''name'' \<noteq> Null \<longrightarrow>
              ''name'' \<in> set (df_columns df3) \<and> cell_of m ''name'' = cell_of l ''name''))
         df2 df3"
    and "set (df_columns df3) \<subseteq> set (df_columns df2)"
proof -
  let ?f = "\<lambda>r. fillna (cell_of r ''name'') (cell_of r ''name_spine'')"
  let ?a = "assign_col ''name'' ?f df2"
  let ?R = "\<lambda>l m.
           (\<forall>c \<in> set (df_columns df2). c \<notin> set [''name'', ''name_spine''] \<longrightarrow>
              c \<in> set (df_columns df3) \<and> cell_of m c = cell_of l c) \<and>
           (''name'' \<in> set (df_columns df2) \<longrightarrow> cell_of l ''name'' \<noteq> Null \<longrightarrow>
              ''name'' \<in> set (df_columns df3) \<and> cell_of m ''name'' = cell_of l ''name'')"
  have ne: "''name'' \<noteq> ''name_spine''" by simp
  from use_spine_name_cases [OF s5] consider
      "df3 = df2"
    | "''name'' \<in> set (df_columns df2)" "df3 = drop_col ''name_spine'' ?a"
    by blast
  then have "row_step ?R df2 df3 \<and> set (df_columns df3) \<subseteq> set (df_columns df2)"
  proof cases
    case 1
    show ?thesis unfolding 1 by (intro conjI row_step_set) simp_all
  next
    case 2
    have ca: "set (df_columns ?a) = set (df_columns df2)"
      using 2(1) by (auto simp: assign_col_columns_set)
    have c3: "set (df_columns df3) = set (df_columns df2) - {''name_spine''}"
      unfolding 2(2) drop_col_columns using ca by auto
    have st1: "row_step (\<lambda>l m. cell_of m ''name'' = ?f l \<and>
               (\<forall>c' \<in> set (df_columns df2). c' \<noteq> ''name'' \<longrightarrow> cell_of m c' = cell_of l c'))
             df2 ?a"
      by (rule assign_col_step)
    have st2: "row_step (\<lambda>l m. \<forall>c' \<in> set (df_columns ?a). c' \<noteq> ''name_spine'' \<longrightarrow>
               cell_of m c' = cell_of l c') ?a df3"
      unfolding 2(2) by (rule drop_col_step)
    have "row_step ?R df2 df3"
    proof (rule row_step_mono [OF row_step_trans [OF st1 st2]])
      fix l n
      assume "\<exists>m. (cell_of m ''name'' = ?f l \<and>
                  (\<forall>c' \<in> set (df_columns df2). c' \<noteq> ''name'' \<longrightarrow> cell_of m c' = cell_of l c')) \<and>
                 (\<forall>c' \<in> set (df_columns ?a). c' \<noteq> ''name_spine'' \<longrightarrow>
                    cell_of n c' = cell_of m c')"
      then obtain m where m1: "cell_of m ''name'' = ?f l"
        and m2: "\<forall>c' \<in> set (df_columns df2). c' \<noteq> ''name'' \<longrightarrow> cell_of m c' = cell_of l c'"
        and n: "\<forall>c' \<in> set (df_columns df2). c' \<noteq> ''name_spine'' \<longrightarrow>
                    cell_of n c' = cell_of m c'"
        unfolding ca by blast
      have a: "\<forall>c \<in> set (df_columns df2). c \<notin> set [''name'', ''name_spine''] \<longrightarrow>
              c \<in> set (df_columns df3) \<and> cell_of n c = cell_of l c"
        using m2 n c3 by simp
      have "cell_of n ''name'' = ?f l" using n 2(1) m1 ne by metis
      then have b: "cell_of l ''name'' \<noteq> Null \<longrightarrow> cell_of n ''name'' = cell_of l ''name''"
        by (simp add: fillna_def)
      have "''name'' \<in> set (df_columns df3)" using c3 2(1) ne by blast
      with a b show "?R l n" by blast
    qed
    with c3 show ?thesis by blast
  qed
  then have res: "row_step ?R df2 df3 \<and> set (df_columns df3) \<subseteq> set (df_columns df2)" .
  show "row_step ?R df2 df3" by (rule res [THEN conjunct1])
  show "set (df_columns df3) \<subseteq> set (df_columns df2)" by (rule res [THEN conjunct2])
qed

lemma stage3:
  assumes s5: "use_spine_name df2 = Inr df3"
    and p2: "row_step (master_facts 2 data df2) (hiring data) df2"
    and o2: "origin_inv 2 data df2"
  shows "row_step (master_facts 2 data df3) (hiring data) df3" and "origin_inv 2 data df3"
proof -
  note u = use_spine_name_stage [OF s5]
  show "row_step (master_facts 2 data df3) (hiring data) df3"
  proof (rule row_step_mono [OF row_step_trans [OF p2 u(1)]])
    fix h m
    assume "\<exists>l. master_facts 2 data df2 h l \<and>
      ((\<forall>c \<in> set (df_columns df2). c \<notin> set [''name'', ''name_spine''] \<longrightarrow>
              c \<in> set (df_columns df3) \<and> cell_of m c = cell_of l c) \<and>
       (''name'' \<in> set (df_columns df2) \<longrightarrow> cell_of l ''name'' \<noteq> Null \<longrightarrow>
              ''name'' \<in> set (df_columns df3) \<and> cell_of m ''name'' = cell_of l ''name''))"
    then obtain l where f: "master_facts 2 data df2 h l"
      and k: "\<forall>c \<in> set (df_columns df2). c \<notin> set [''name'', ''name_spine''] \<longrightarrow>
              c \<in> set (df_columns df3) \<and> cell_of m c = cell_of l c"
      and n: "''name'' \<in> set (df_columns df2) \<longrightarrow> cell_of l ''name'' \<noteq> Null \<longrightarrow>
              ''name'' \<in> set (df_columns df3) \<and> cell_of m ''name'' = cell_of l ''name''"
      by blast
    show "master_facts 2 data df3 h m"
      by (rule master_facts_keep [OF f _ _ label_facts(4)]) (use k n in blast, use n in blast, simp)
  qed
  show "origin_inv 2 data df3"
    by (rule origin_inv_mono [OF o2]) (use u(2) in auto)
qed

lemma stage4:
  assumes s6: "select_cols [''company_id'', ''funding_stage''] (scores data) = Inr scores_full"
    and s7: "merge_left ''company_id'' [] ''_dup'' df3 scores_full = Inr df4"
    and p3: "row_step (master_facts 2 data df3) (hiring data) df3"
    and o3: "origin_inv 2 data df3"
    and cid: "''company_id'' \<in> set (df_columns (hiring data))"
  shows "row_step (master_facts 4 data df4) (hiring data) df4" and "origin_inv 4 data df4"
proof -
  have rc: "set (right_cols ''company_id'' scores_full) \<subseteq> set [''funding_stage'']"
    unfolding right_cols_select [OF s6] by auto
  have E: "\<forall>c \<in> set ([] :: string list).
             c \<in> set reserved_cols \<and> (c = ''name'' \<or> c \<notin> set (added_upto 2))" by simp
  show "row_step (master_facts 4 data df4) (hiring data) df4"
  proof (rule row_step_mono [OF merge_stage [OF p3 s7 _ E]])
    show "([] :: string) = [] \<or> set (right_cols ''company_id'' scores_full) \<subseteq> set []" by simp
    show "''name'' \<notin> set []" by simp
    show "(2::nat) < 8" by simp
    fix h m
    assume "master_facts 2 data df4 h m \<and>
      (\<exists>l. master_facts 2 data df3 h l \<and>
           merge_rel ''company_id'' [] ''_dup'' df3 scores_full l m)"
    then obtain l where f: "master_facts 2 data df4 h m"
      and fl: "master_facts 2 data df3 h l"
      and r: "merge_rel ''company_id'' [] ''_dup'' df3 scores_full l m" by blast
    note k = master_facts_key(1) [OF fl cid]
    show "master_facts 4 data df4 h m"
    proof (rule master_facts_raise [OF f, of 4])
      show "\<forall>c \<in> {''funding_stage''} - set (df_columns (hiring data)).
         c \<in> set (df_columns df4) \<and>
         joined (scores data) ''company_id'' (cell_of h ''company_id'') c (cell_of m c)"
      proof
        fix c assume c: "c \<in> {''funding_stage''} - set (df_columns (hiring data))"
        then have e: "c = ''funding_stage''" and nh: "c \<notin> set (df_columns (hiring data))"
          by blast+
        have a: "c \<in> set [''company_id'', ''funding_stage'']" "c \<noteq> ''company_id''"
          unfolding e by simp_all
        from label_facts(5) e have "plain_col c" "c \<notin> set (added_upto 2)" by simp_all
        from origin_absent [OF o3 this(1) nh this(2)]
        have "c \<notin> set (df_columns df3)" .
        from merge_select_new [OF s6 s7 r a this]
        show "c \<in> set (df_columns df4) \<and>
           joined (scores data) ''company_id'' (cell_of h ''company_id'') c (cell_of m c)"
          unfolding k .
      qed
    qed simp_all
  qed
  show "origin_inv 4 data df4"
    by (rule merge_stage_origin [OF o3 s7 _ _ suffix_choices(2) suffix_choices(5)])
      (use rc added_upto_subset(2) in auto)
qed

lemma stage_label_valid: "\<exists>l \<in> set stage_labels. stage_label v = Str l"
proof (cases v)
  case (Num x)
  show ?thesis
  proof (cases "map_of FUNDING_STAGE_LABELS x")
    case None
    with Num show ?thesis by (simp add: stage_label_def fillna_def stage_labels_def)
  next
    case (Some l)
    then have "l \<in> snd ` set FUNDING_STAGE_LABELS" by (metis map_of_SomeD image_eqI snd_conv)
    with Num Some show ?thesis by (simp add: stage_label_def fillna_def stage_labels_def)
  qed
qed (simp_all add: stage_label_def fillna_def stage_labels_def)

lemma first_industry_valid: "first_industry items r \<in> snd ` set items \<union> {''Other''}"
  by (induction items r rule: first_industry.induct) auto

lemma derive_primary_industry_valid: "derive_primary_industry r \<in> set industry_labels"
  using first_industry_valid [of INDUSTRY_MAP r]
  by (simp add: derive_primary_industry_def industry_labels_def)

lemma stage5:
  assumes s8: "apply_col ''funding_stage_label'' ''funding_stage''
                 (\<lambda>v. Inr (stage_label v)) df4 = Inr df5"
    and p4: "row_step (master_facts 4 data df4) (hiring data) df4"
    and o4: "origin_inv 4 data df4"
  shows "row_step (master_facts 5 data df5) (hiring data) df5" and "origin_inv 5 data df5"
proof -
  have nm: "''funding_stage_label'' \<noteq> ''name''" by simp
  have j: "(4::nat) < 8" by simp
  note a = apply_stage [OF p4 s8 label_facts(6) nm j]
  show "row_step (master_facts 5 data df5) (hiring data) df5"
  proof (rule row_step_mono [OF a(1)])
    fix h m
    assume "master_facts 4 data df5 h m \<and>
      (\<exists>l v. Inr (stage_label (cell_of l ''funding_stage'')) = Inr v \<and>
             cell_of m ''funding_stage_label'' = v \<and>
             (''funding_stage'' \<noteq> ''funding_stage_label'' \<longrightarrow>
              cell_of m ''funding_stage'' = cell_of l ''funding_stage''))"
    then obtain l where f: "master_facts 4 data df5 h m"
      and v: "cell_of m ''funding_stage_label'' = stage_label (cell_of l ''funding_stage'')"
      by auto
    show "master_facts 5 data df5 h m"
    proof (rule master_facts_raise [OF f, of 5])
      show "\<forall>c \<in> {''funding_stage_label''}.
         c \<in> set (df_columns df5) \<and> (\<exists>l \<in> set stage_labels. cell_of m c = Str l)"
        using a(2) v stage_label_valid [of "cell_of l ''funding_stage''"] by simp
    qed simp_all
  qed
  show "origin_inv 5 data df5"
    by (rule origin_inv_mono [OF o4]) (use a(3) added_upto_subset(3) in auto)
qed

text \<open>The table of primary industries has one row for each row of Features.\<close>

lemma ind_df_rows:
  assumes s9: "select_cols (''company_id'' # filter (prefix ''ind_'') (df_columns (features data)))
                 (features data) = Inr ind_sel"
    and s10: "select_cols [''company_id'', ''primary_industry'']
                (assign_col ''primary_industry'' (\<lambda>r. Str (derive_primary_industry r)) ind_sel)
                = Inr ind_df"
  shows "row_step (\<lambda>f r. cell_of r ''company_id'' = cell_of f ''company_id'' \<and>
                    (\<exists>l \<in> set industry_labels. cell_of r ''primary_industry'' = Str l))
           (features data) ind_df"
proof -
  let ?a = "assign_col ''primary_industry'' (\<lambda>r. Str (derive_primary_industry r)) ind_sel"
  let ?ic = "''company_id'' # filter (prefix ''ind_'') (df_columns (features data))"
  have ne: "''company_id'' \<noteq> ''primary_industry''" by simp
  have st1: "row_step (\<lambda>l m. \<forall>c \<in> set ?ic. cell_of m c = cell_of l c) (features data) ind_sel"
    by (rule select_cols_step [OF s9])
  have st2: "row_step (\<lambda>l m. cell_of m ''primary_industry'' = Str (derive_primary_industry l) \<and>
               (\<forall>c' \<in> set (df_columns ind_sel). c' \<noteq> ''primary_industry'' \<longrightarrow>
                  cell_of m c' = cell_of l c')) ind_sel ?a"
    by (rule assign_col_step)
  have st3: "row_step (\<lambda>l m. \<forall>c \<in> set [''company_id'', ''primary_industry''].
               cell_of m c = cell_of l c) ?a ind_df"
    by (rule select_cols_step [OF s10])
  have ci: "''company_id'' \<in> set (df_columns ind_sel)"
    unfolding select_cols_Inr(1) [OF s9] by simp
  let ?Q = "\<lambda>f r. cell_of r ''company_id'' = cell_of f ''company_id'' \<and>
                    (\<exists>l \<in> set industry_labels. cell_of r ''primary_industry'' = Str l)"
  have st12: "row_step ?Q (features data) ?a"
  proof (rule row_step_mono [OF row_step_trans [OF st1 st2]])
    fix f m
    assume "\<exists>ma. (\<forall>c \<in> set ?ic. cell_of ma c = cell_of f c) \<and>
                 (cell_of m ''primary_industry'' = Str (derive_primary_industry ma) \<and>
                  (\<forall>c' \<in> set (df_columns ind_sel). c' \<noteq> ''primary_industry'' \<longrightarrow>
                     cell_of m c' = cell_of ma c'))"
    then obtain ma where a: "\<forall>c \<in> set ?ic. cell_of ma c = cell_of f c"
      and b: "cell_of m ''primary_industry'' = Str (derive_primary_industry ma)"
      and c: "\<forall>c' \<in> set (df_columns ind_sel). c' \<noteq> ''primary_industry'' \<longrightarrow>
                        cell_of m c' = cell_of ma c'"
      by (elim exE conjE)
    have "''company_id'' \<in> set ?ic" by (rule list.set_intros(1))
    with a have "cell_of ma ''company_id'' = cell_of f ''company_id''" by (rule bspec)
    moreover have "cell_of m ''company_id'' = cell_of ma ''company_id''"
      by (rule c [rule_format, OF ci ne])
    moreover have "\<exists>l \<in> set industry_labels. cell_of m ''primary_industry'' = Str l"
      unfolding b using derive_primary_industry_valid [of ma] by blast
    ultimately show "?Q f m" by simp
  qed
  show ?thesis
  proof (rule row_step_mono [OF row_step_trans [OF st12 st3]])
    fix f r
    assume "\<exists>m. ?Q f m \<and>
               (\<forall>c \<in> set [''company_id'', ''primary_industry'']. cell_of r c = cell_of m c)"
    then obtain m where qd: "?Q f m \<and>
               (\<forall>c \<in> set [''company_id'', ''primary_industry'']. cell_of r c = cell_of m c)"
      by (elim exE)
    note q = qd [THEN conjunct1] and d = qd [THEN conjunct2]
    have "''company_id'' \<in> set [''company_id'', ''primary_industry'']"
      by (rule list.set_intros(1))
    with d have d1: "cell_of r ''company_id'' = cell_of m ''company_id''" by (rule bspec)
    have "''primary_industry'' \<in> set [''company_id'', ''primary_industry'']"
      by (intro list.set_intros)
    with d have d2: "cell_of r ''primary_industry'' = cell_of m ''primary_industry''"
      by (rule bspec)
    from q show "?Q f r" unfolding d1 d2 .
  qed
qed

lemma stage6:
  assumes s9: "select_cols (''company_id'' # filter (prefix ''ind_'') (df_columns (features data)))
                 (features data) = Inr ind_sel"
    and s10: "select_cols [''company_id'', ''primary_industry'']
                (assign_col ''primary_industry'' (\<lambda>r. Str (derive_primary_industry r)) ind_sel)
                = Inr ind_df"
    and s11: "merge_left ''company_id'' ''_x'' ''_y'' df5 ind_df = Inr df6"
    and p5: "row_step (master_facts 5 data df5) (hiring data) df5"
    and o5: "origin_inv 5 data df5"
    and cid: "''company_id'' \<in> set (df_columns (hiring data))"
  shows "row_step (master_facts 6 data df6) (hiring data) df6" and "origin_inv 6 data df6"
proof -
  note ir = ind_df_rows [OF s9 s10]
  have rc: "set (right_cols ''company_id'' ind_df) = set [''primary_industry'']"
    unfolding right_cols_select [OF s10] by simp
  have U: "''_x'' = [] \<or> set (right_cols ''company_id'' ind_df) \<subseteq> set [''primary_industry'']"
    unfolding rc by blast
  have nm: "''name'' \<notin> set [''primary_industry'']" by simp
  show "row_step (master_facts 6 data df6) (hiring data) df6"
  proof (rule row_step_mono [OF merge_stage [OF p5 s11 U label_facts(8) nm]])
    show "(5::nat) < 8" by simp
    fix h m
    assume "master_facts 5 data df6 h m \<and>
      (\<exists>l. master_facts 5 data df5 h l \<and>
           merge_rel ''company_id'' ''_x'' ''_y'' df5 ind_df l m)"
    then obtain l where f: "master_facts 5 data df6 h m"
      and fl: "master_facts 5 data df5 h l"
      and r: "merge_rel ''company_id'' ''_x'' ''_y'' df5 ind_df l m" by blast
    note k = master_facts_key(1) [OF fl cid]
    show "master_facts 6 data df6 h m"
    proof (rule master_facts_raise [OF f, of 6])
      show "\<forall>c \<in> {''primary_industry''} - set (df_columns (hiring data)).
         c \<in> set (df_columns df6) \<and>
         ((\<exists>f \<in> set (df_rows (features data)).
              cell_of f ''company_id'' = cell_of h ''company_id'' \<and>
              (\<exists>l \<in> set industry_labels. cell_of m c = Str l)) \<or>
          ((\<forall>f \<in> set (df_rows (features data)).
              cell_of f ''company_id'' \<noteq> cell_of h ''company_id'') \<and>
           cell_of m c = Null))"
      proof
        fix c assume c: "c \<in> {''primary_industry''} - set (df_columns (hiring data))"
        then have e: "c = ''primary_industry''" and nh: "c \<notin> set (df_columns (hiring data))"
          by blast+
        from label_facts(7) e have "plain_col c" "c \<notin> set (added_upto 5)" by simp_all
        from origin_absent [OF o5 this(1) nh this(2)]
        have nl: "c \<notin> set (df_columns df5)" .
        have cr: "c \<in> set (right_cols ''company_id'' ind_df)" unfolding rc e by simp
        note col = merge_new_col [OF s11 cr nl]
        from merge_new [OF r cr nl]
        have jn: "joined ind_df ''company_id'' (cell_of h ''company_id'') c (cell_of m c)"
          unfolding k .
        then consider
            t where "t \<in> set (df_rows ind_df)"
              "cell_of t ''company_id'' = cell_of h ''company_id''" "cell_of m c = cell_of t c"
          | "\<forall>t \<in> set (df_rows ind_df). cell_of t ''company_id'' \<noteq> cell_of h ''company_id''"
              "cell_of m c = Null"
          unfolding joined_def by blast
        then have "(\<exists>f \<in> set (df_rows (features data)).
              cell_of f ''company_id'' = cell_of h ''company_id'' \<and>
              (\<exists>l \<in> set industry_labels. cell_of m c = Str l)) \<or>
          ((\<forall>f \<in> set (df_rows (features data)).
              cell_of f ''company_id'' \<noteq> cell_of h ''company_id'') \<and>
           cell_of m c = Null)"
        proof cases
          case 1
          from row_step_bwd [OF ir 1(1)] obtain f where f: "f \<in> set (df_rows (features data))"
            and g: "cell_of t ''company_id'' = cell_of f ''company_id''"
              "\<exists>l \<in> set industry_labels. cell_of t ''primary_industry'' = Str l"
            by blast
          from g 1(2,3) e have "cell_of f ''company_id'' = cell_of h ''company_id''"
            "\<exists>l \<in> set industry_labels. cell_of m c = Str l" by simp_all
          with f show ?thesis by blast
        next
          case 2
          have "cell_of f ''company_id'' \<noteq> cell_of h ''company_id''"
            if "f \<in> set (df_rows (features data))" for f
          proof -
            from row_step_fwd [OF ir that] obtain t where "t \<in> set (df_rows ind_df)"
              "cell_of t ''company_id'' = cell_of f ''company_id''" by blast
            with 2(1) show ?thesis by metis
          qed
          with 2(2) show ?thesis by blast
        qed
        with col show "c \<in> set (df_columns df6) \<and>
         ((\<exists>f \<in> set (df_rows (features data)).
              cell_of f ''company_id'' = cell_of h ''company_id'' \<and>
              (\<exists>l \<in> set industry_labels. cell_of m c = Str l)) \<or>
          ((\<forall>f \<in> set (df_rows (features data)).
              cell_of f ''company_id'' \<noteq> cell_of h ''company_id'') \<and>
           cell_of m c = Null))" by blast
      qed
    qed simp_all
  qed
  show "origin_inv 6 data df6"
    by (rule merge_stage_origin [OF o5 s11 _ _ suffix_choices(1) suffix_choices(3)])
      (use rc added_upto_subset(4) in auto)
qed

lemma stage7:
  assumes s12: "(if ''has_job_postings'' \<in> set (df_columns (features data)) then
            bind_err (select_cols [''company_id'', ''has_job_postings''] (features data))
              (\<lambda>jobs. merge_left ''company_id'' ''_x'' ''_y'' df6 jobs)
          else Inr df6) = Inr df7"
    and p6: "row_step (master_facts 6 data df6) (hiring data) df6"
    and o6: "origin_inv 6 data df6"
    and d6: "distinct (df_columns df6)"
    and cid: "''company_id'' \<in> set (df_columns (hiring data))"
  shows "row_step (master_facts 7 data df7) (hiring data) df7" and "origin_inv 7 data df7"
    and "distinct (df_columns df7)"
proof -
  have "row_step (master_facts 7 data df7) (hiring data) df7 \<and> origin_inv 7 data df7 \<and>
        distinct (df_columns df7)"
  proof (cases "''has_job_postings'' \<in> set (df_columns (features data))")
    case False
    with s12 have e: "df7 = df6" by simp
    have "row_step (master_facts 7 data df6) (hiring data) df6"
    proof (rule row_step_mono [OF p6])
      fix h m assume f: "master_facts 6 data df6 h m"
      show "master_facts 7 data df6 h m"
        by (rule master_facts_raise [OF f, of 7]) (use False in simp_all)
    qed
    moreover have "origin_inv 7 data df6"
      by (rule origin_inv_mono [OF o6]) simp_all
    ultimately show ?thesis using d6 unfolding e by blast
  next
    case True
    with s12 obtain jobs
      where sel: "select_cols [''company_id'', ''has_job_postings''] (features data) = Inr jobs"
        and mrg: "merge_left ''company_id'' ''_x'' ''_y'' df6 jobs = Inr df7"
      by (auto simp: bind_err_eq_Inr)
    have rc: "set (right_cols ''company_id'' jobs) = set [''has_job_postings'']"
      unfolding right_cols_select [OF sel] by simp
    have U: "''_x'' = [] \<or> set (right_cols ''company_id'' jobs) \<subseteq> set [''has_job_postings'']"
      unfolding rc by blast
    have nm: "''name'' \<notin> set [''has_job_postings'']" by simp
    have "row_step (master_facts 7 data df7) (hiring data) df7"
    proof (rule row_step_mono [OF merge_stage [OF p6 mrg U label_facts(10) nm]])
      show "(6::nat) < 8" by simp
      fix h m
      assume "master_facts 6 data df7 h m \<and>
        (\<exists>l. master_facts 6 data df6 h l \<and>
             merge_rel ''company_id'' ''_x'' ''_y'' df6 jobs l m)"
      then obtain l where f: "master_facts 6 data df7 h m"
        and fl: "master_facts 6 data df6 h l"
        and r: "merge_rel ''company_id'' ''_x'' ''_y'' df6 jobs l m" by blast
      note k = master_facts_key(1) [OF fl cid]
      show "master_facts 7 data df7 h m"
      proof (rule master_facts_raise [OF f, of 7])
        show "\<forall>c \<in> {''has_job_postings''} \<inter> set (df_columns (features data)) -
                set (df_columns (hiring data)).
           c \<in> set (df_columns df7) \<and>
           joined (features data) ''company_id'' (cell_of h ''company_id'') c (cell_of m c)"
        proof
          fix c assume c: "c \<in> {''has_job_postings''} \<inter> set (df_columns (features data)) -
                set (df_columns (hiring data))"
          then have e: "c = ''has_job_postings''" and nh: "c \<notin> set (df_columns (hiring data))"
            by blast+
          have a: "c \<in> set [''company_id'', ''has_job_postings'']" "c \<noteq> ''company_id''"
            unfolding e by simp_all
          from label_facts(9) e have "plain_col c" "c \<notin> set (added_upto 6)" by simp_all
          from origin_absent [OF o6 this(1) nh this(2)]
          have "c \<notin> set (df_columns df6)" .
          from merge_select_new [OF sel mrg r a this]
          show "c \<in> set (df_columns df7) \<and>
             joined (features data) ''company_id'' (cell_of h ''company_id'') c (cell_of m c)"
            unfolding k .
        qed
      qed simp_all
    qed
    moreover have "origin_inv 7 data df7"
      by (rule merge_stage_origin [OF o6 mrg _ _ suffix_choices(1) suffix_choices(3)])
        (use rc added_upto_subset(5) in auto)
    ultimately show ?thesis using merge_left_Inr(4) [OF mrg] by blast
  qed
  then show "row_step (master_facts 7 data df7) (hiring data) df7" and "origin_inv 7 data df7"
    and "distinct (df_columns df7)" by blast+
qed

lemma map_sum_Str_Inr: "map_sum id Str x = Inr v \<Longrightarrow> \<exists>s. x = Inr s \<and> v = Str s"
  by (cases x) auto

lemma stage8:
  assumes s13: "apply_col ''total_funding_display'' ''total_funding_usd''
                  (\<lambda>v. map_sum id Str (format_usd v)) df7 = Inr df8"
    and p7: "row_step (master_facts 7 data df7) (hiring data) df7"
  shows "row_step (master_facts 8 data df8) (hiring data) df8"
proof -
  have nm: "''total_funding_display'' \<noteq> ''name''" by simp
  have ne: "''total_funding_usd'' \<noteq> ''total_funding_display''" by simp
  have j: "(7::nat) < 8" by simp
  note a = apply_stage [OF p7 s13 label_facts(11) nm j]
  show ?thesis
  proof (rule row_step_mono [OF a(1)])
    fix h m
    assume "master_facts 7 data df8 h m \<and>
      (\<exists>l v. map_sum id Str (format_usd (cell_of l ''total_funding_usd'')) = Inr v \<and>
             cell_of m ''total_funding_display'' = v \<and>
             (''total_funding_usd'' \<noteq> ''total_funding_display'' \<longrightarrow>
              cell_of m ''total_funding_usd'' = cell_of l ''total_funding_usd''))"
    then obtain l v where f: "master_facts 7 data df8 h m"
      and v: "map_sum id Str (format_usd (cell_of l ''total_funding_usd'')) = Inr v"
      and d: "cell_of m ''total_funding_display'' = v"
      and u: "''total_funding_usd'' \<noteq> ''total_funding_display'' \<longrightarrow>
              cell_of m ''total_funding_usd'' = cell_of l ''total_funding_usd''"
      by (elim exE conjE)
    from u ne have u': "cell_of m ''total_funding_usd'' = cell_of l ''total_funding_usd''"
      by (rule mp)
    from map_sum_Str_Inr [OF v] obtain s
      where s: "format_usd (cell_of l ''total_funding_usd'') = Inr s" "v = Str s" by blast
    show "master_facts 8 data df8 h m"
    proof (rule master_facts_raise [OF f, of 8])
      show "\<forall>c \<in> {''total_funding_display''}.
         c \<in> set (df_columns df8) \<and>
         (\<exists>s. format_usd (cell_of m ''total_funding_usd'') = Inr s \<and> cell_of m c = Str s)"
        using a(2) s d unfolding u' by simp
    qed simp_all
  qed
qed

lemma master_facts_cols:
  "df_columns df = df_columns df' \<Longrightarrow> master_facts k data df h m = master_facts k data df' h m"
  by (simp add: master_facts_def)

text \<open>What \<open>prepare_master_table\<close> makes of the rows of Hiring.\<close>

lemma prepare_master_table_facts:
  assumes "prepare_master_table data = Inr master"
  shows "row_step (master_facts 9 data master) (hiring data) master"
    and "wf_frame master"
    and "''company_id'' \<in> set (df_columns (hiring data))"
proof -
  from prepare_master_table_stages [OF assms]
  obtain scores_sel spine_sel df1 df2 df3 scores_full df4 df5 ind_sel ind_df df6 df7 df8
  where s1: "select_cols [''company_id'', ''momentum_score'', ''momentum_tier'', ''momentum_rank'']
           (scores data) = Inr scores_sel"
    and s2: "select_cols (filter (\<lambda>c. c \<in> set (df_columns (spine data))) spine_cols) (spine data)
           = Inr spine_sel"
    and s3: "merge_left ''company_id'' ''_x'' ''_y'' (hiring data) scores_sel = Inr df1"
    and s4: "merge_left ''company_id'' [] ''_spine'' df1 spine_sel = Inr df2"
    and s5: "use_spine_name df2 = Inr df3"
    and s6: "select_cols [''company_id'', ''funding_stage''] (scores data) = Inr scores_full"
    and s7: "merge_left ''company_id'' [] ''_dup'' df3 scores_full = Inr df4"
    and s8: "apply_col ''funding_stage_label'' ''funding_stage'' (\<lambda>v. Inr (stage_label v)) df4
           = Inr df5"
    and s9: "select_cols (''company_id'' # filter (prefix ''ind_'') (df_columns (features data)))
           (features data) = Inr ind_sel"
    and s10: "select_cols [''company_id'', ''primary_industry'']
           (assign_col ''primary_industry'' (\<lambda>r. Str (derive_primary_industry r)) ind_sel)
           = Inr ind_df"
    and s11: "merge_left ''company_id'' ''_x'' ''_y'' df5 ind_df = Inr df6"
    and s12: "(if ''has_job_postings'' \<in> set (df_columns (features data)) then
            bind_err (select_cols [''company_id'', ''has_job_postings''] (features data))
              (\<lambda>jobs. merge_left ''company_id'' ''_x'' ''_y'' df6 jobs)
          else Inr df6) = Inr df7"
    and s13: "apply_col ''total_funding_display'' ''total_funding_usd''
           (\<lambda>v. map_sum id Str (format_usd v)) df7 = Inr df8"
    and s14: "sort_values ''hiring_rank'' df8 = Inr master"
    by blast
  show cid: "''company_id'' \<in> set (df_columns (hiring data))"
    by (rule merge_left_Inr(1) [OF s3])
  note t1 = stage1 [OF s1 s3]
  note t2 = stage2 [OF s2 s4 t1 cid]
  note t3 = stage3 [OF s5 t2]
  note t4 = stage4 [OF s6 s7 t3 cid]
  note t5 = stage5 [OF s8 t4]
  note t6 = stage6 [OF s9 s10 s11 t5 cid]
  note t7 = stage7 [OF s12 t6 merge_left_Inr(4) [OF s11] cid]
  note t8 = stage8 [OF s13 t7(1)]
  note so = sort_values_Inr [OF s14]
  have "wf_frame df8"
    unfolding apply_col_Inr(3) [OF s13] by (rule assign_col_wf [OF t7(3)])
  then show "wf_frame master" by (rule sort_values_wf [OF s14])
  have "row_step (master_facts 8 data df8) (hiring data) master"
    using t8 so(3) unfolding row_step_def by simp
  then show "row_step (master_facts 9 data master) (hiring data) master"
  proof (rule row_step_mono)
    fix h m assume "master_facts 8 data df8 h m"
    then have f: "master_facts 8 data master h m"
      unfolding master_facts_cols [OF so(2)] .
    show "master_facts 9 data master h m"
      by (rule master_facts_raise [OF f, of 9]) simp_all
  qed
qed
subsection \<open>Rows of the master table\<close>

lemma master_facts_final:
  assumes f: "master_facts 9 data df h m"
  shows "\<forall>c \<in> set (df_columns (hiring data)) - set reserved_cols.
           c \<in> set (df_columns df) \<and> cell_of m c = cell_of h c"
    and "\<forall>c \<in> {''momentum_score'', ''momentum_tier'', ''momentum_rank''} -
              set (df_columns (hiring data)).
           c \<in> set (df_columns df) \<and>
           joined (scores data) ''company_id'' (cell_of h ''company_id'') c (cell_of m c)"
    and "\<forall>c \<in> set spine_cols \<inter> set (df_columns (spine data)) - {''company_id'', ''name''} -
              set (df_columns (hiring data)).
           c \<in> set (df_columns df) \<and>
           joined (spine data) ''company_id'' (cell_of h ''company_id'') c (cell_of m c)"
    and "\<forall>c \<in> {''funding_stage''} - set (df_columns (hiring data)).
           c \<in> set (df_columns df) \<and>
           joined (scores data) ''company_id'' (cell_of h ''company_id'') c (cell_of m c)"
    and "\<forall>c \<in> {''funding_stage_label''}.
           c \<in> set (df_columns df) \<and> (\<exists>l \<in> set stage_labels. cell_of m c = Str l)"
    and "\<forall>c \<in> {''primary_industry''} - set (df_columns (hiring data)).
           c \<in> set (df_columns df) \<and>
           ((\<exists>f \<in> set (df_rows (features data)).
                cell_of f ''company_id'' = cell_of h ''company_id'' \<and>
                (\<exists>l \<in> set industry_labels. cell_of m c = Str l)) \<or>
            ((\<forall>f \<in> set (df_rows (features data)).
                cell_of f ''company_id'' \<noteq> cell_of h ''company_id'') \<and>
             cell_of m c = Null))"
    and "\<forall>c \<in> {''has_job_postings''} \<inter> set (df_columns (features data)) -
              set (df_columns (hiring data)).
           c \<in> set (df_columns df) \<and>
           joined (features data) ''company_id'' (cell_of h ''company_id'') c (cell_of m c)"
    and "\<forall>c \<in> {''total_funding_display''}.
           c \<in> set (df_columns df) \<and>
           (\<exists>s. format_usd (cell_of m ''total_funding_usd'') = Inr s \<and> cell_of m c = Str s)"
proof -
  note f' = f [unfolded master_facts_def Let_def]
  note c2 = conjunct2
  have n: "(1::nat) \<le> 9" "(2::nat) \<le> 9" "(4::nat) \<le> 9" "(5::nat) \<le> 9" "(6::nat) \<le> 9"
    "(7::nat) \<le> 9" "(8::nat) \<le> 9" by simp_all
  show "\<forall>c \<in> set (df_columns (hiring data)) - set reserved_cols.
           c \<in> set (df_columns df) \<and> cell_of m c = cell_of h c"
    by (rule f' [THEN conjunct1])
  show "\<forall>c \<in> {''momentum_score'', ''momentum_tier'', ''momentum_rank''} -
              set (df_columns (hiring data)).
           c \<in> set (df_columns df) \<and>
           joined (scores data) ''company_id'' (cell_of h ''company_id'') c (cell_of m c)"
    by (rule f' [THEN c2, THEN c2, THEN conjunct1, THEN mp, OF n(1)])
  show "\<forall>c \<in> set spine_cols \<inter> set (df_columns (spine data)) - {''company_id'', ''name''} -
              set (df_columns (hiring data)).
           c \<in> set (df_columns df) \<and>
           joined (spine data) ''company_id'' (cell_of h ''company_id'') c (cell_of m c)"
    by (rule f' [THEN c2, THEN c2, THEN c2, THEN conjunct1, THEN mp, OF n(2)])
  show "\<forall>c \<in> {''funding_stage''} - set (df_columns (hiring data)).
           c \<in> set (df_columns df) \<and>
           joined (scores data) ''company_id'' (cell_of h ''company_id'') c (cell_of m c)"
    by (rule f' [THEN c2, THEN c2, THEN c2, THEN c2, THEN conjunct1, THEN mp, OF n(3)])
  show "\<forall>c \<in> {''funding_stage_label''}.
           c \<in> set (df_columns df) \<and> (\<exists>l \<in> set stage_labels. cell_of m c = Str l)"
    by (rule f' [THEN c2, THEN c2, THEN c2, THEN c2, THEN c2, THEN conjunct1, THEN mp, OF n(4)])
  show "\<forall>c \<in> {''primary_industry''} - set (df_columns (hiring data)).
           c \<in> set (df_columns df) \<and>
           ((\<exists>f \<in> set (df_rows (features data)).
                cell_of f ''company_id'' = cell_of h ''company_id'' \<and>
                (\<exists>l \<in> set industry_labels. cell_of m c = Str l)) \<or>
            ((\<forall>f \<in> set (df_rows (features data)).
                cell_of f ''company_id'' \<noteq> cell_of h ''company_id'') \<and>
             cell_of m c = Null))"
    by (rule f' [THEN c2, THEN c2, THEN c2, THEN c2, THEN c2, THEN c2, THEN conjunct1,
          THEN mp, OF n(5)])
  show "\<forall>c \<in> {''has_job_postings''} \<inter> set (df_columns (features data)) -
              set (df_columns (hiring data)).
           c \<in> set (df_columns df) \<and>
           joined (features data) ''company_id'' (cell_of h ''company_id'') c (cell_of m c)"
    by (rule f' [THEN c2, THEN c2, THEN c2, THEN c2, THEN c2, THEN c2, THEN c2, THEN conjunct1,
          THEN mp, OF n(6)])
  show "\<forall>c \<in> {''total_funding_display''}.
           c \<in> set (df_columns df) \<and>
           (\<exists>s. format_usd (cell_of m ''total_funding_usd'') = Inr s \<and> cell_of m c = Str s)"
    by (rule f' [THEN c2, THEN c2, THEN c2, THEN c2, THEN c2, THEN c2, THEN c2, THEN c2,
          THEN mp, OF n(7)])
qed

lemma joined_absent:
  "joined T key k c v \<Longrightarrow> \<forall>t \<in> set (df_rows T). cell_of t key \<noteq> k \<Longrightarrow> v = Null"
  unfolding joined_def by blast

lemma stage_labels_eq:
  "stage_labels =
     [''Pre-Seed / Angel'', ''Seed'', ''Series A'', ''Series B'', ''Post-IPO'', ''Unknown'']"
  by code_simp

lemma industry_labels_eq:
  "industry_labels =
     [''AI'', ''Software'', ''IT'', ''SaaS'', ''Healthcare'', ''FinTech'',
      ''Financial Services'', ''Machine Learning'', ''Manufacturing'', ''Biotech'',
      ''Generative AI'', ''Developer Tools'', ''Other'']"
  by code_simp

text \<open>
  C8. In every row of a master table that \<open>prepare_master_table\<close> returns, the field
  \<^verbatim>\<open>funding_stage_label\<close> is present and holds one of the five stage labels or
  \<^verbatim>\<open>Unknown\<close>; it is never null. The label of any stage code (a number in or out of the
  table, a string, a null) is one of these six.
\<close>

theorem funding_stage_label_valid:
  assumes "prepare_master_table data = Inr master" and "m \<in> set (df_rows master)"
  shows "(\<exists>l \<in> set [''Pre-Seed / Angel'', ''Seed'', ''Series A'', ''Series B'', ''Post-IPO'',
                     ''Unknown''].
            map_of m ''funding_stage_label'' = Some (Str l)) \<and>
         (\<exists>l \<in> set [''Pre-Seed / Angel'', ''Seed'', ''Series A'', ''Series B'', ''Post-IPO'',
                     ''Unknown''].
            stage_label v = Str l)"
proof
  note p = prepare_master_table_facts [OF assms(1)]
  from row_step_bwd [OF p(1) assms(2)] obtain h where "master_facts 9 data master h m"
    by blast
  from master_facts_final(5) [OF this]
  have c: "''funding_stage_label'' \<in> set (df_columns master)"
    and l: "\<exists>l \<in> set stage_labels. cell_of m ''funding_stage_label'' = Str l" by simp_all
  from map_of_wf [OF p(2) assms(2) c] l
  show "\<exists>l \<in> set [''Pre-Seed / Angel'', ''Seed'', ''Series A'', ''Series B'', ''Post-IPO'',
                     ''Unknown''].
            map_of m ''funding_stage_label'' = Some (Str l)"
    unfolding stage_labels_eq by simp
  show "\<exists>l \<in> set [''Pre-Seed / Angel'', ''Seed'', ''Series A'', ''Series B'', ''Post-IPO'',
                     ''Unknown''].
            stage_label v = Str l"
    using stage_label_valid [of v] unfolding stage_labels_eq .
qed

theorem funding_stage_label_valid_witness:
  "(\<exists>l \<in> set [''Pre-Seed / Angel'', ''Seed'', ''Series A'', ''Series B'', ''Post-IPO'',
               ''Unknown''].
      map_of (df_rows ex_master ! 1) ''funding_stage_label'' = Some (Str l)) \<and>
   (\<exists>l \<in> set [''Pre-Seed / Angel'', ''Seed'', ''Series A'', ''Series B'', ''Post-IPO'',
               ''Unknown''].
      stage_label (Num 7) = Str l) \<and>
   cell_of (df_rows ex_master ! 1) ''funding_stage'' = Num 7 \<and>
   map_of (df_rows ex_master ! 1) ''funding_stage_label'' = Some (Str ''Unknown'') \<and>
   map_of (df_rows ex_master ! 2) ''funding_stage_label'' = Some (Str ''Unknown'') \<and>
   map_of (df_rows ex_master ! 0) ''funding_stage_label'' = Some (Str ''Series A'')"
proof -
  have m: "df_rows ex_master ! 1 \<in> set (df_rows ex_master)" by code_simp
  note t = funding_stage_label_valid [OF ex_master_eval m, of "Num 7"]
  have e: "cell_of (df_rows ex_master ! 1) ''funding_stage'' = Num 7 \<and>
   map_of (df_rows ex_master ! 1) ''funding_stage_label'' = Some (Str ''Unknown'') \<and>
   map_of (df_rows ex_master ! 2) ''funding_stage_label'' = Some (Str ''Unknown'') \<and>
   map_of (df_rows ex_master ! 0) ''funding_stage_label'' = Some (Str ''Series A'')"
    by code_simp
  show ?thesis
    by (intro conjI) (rule t [THEN conjunct1], rule t [THEN conjunct2],
        rule e [THEN conjunct1], rule e [THEN conjunct2, THEN conjunct1],
        rule e [THEN conjunct2, THEN conjunct2, THEN conjunct1],
        rule e [THEN conjunct2, THEN conjunct2, THEN conjunct2])
qed




text \<open>
  C2 as stated fails: the company \<open>c3\<close> of the example bundle is ranked in Hiring and has no
  row in Features, and its row of the master table has a null \<^verbatim>\<open>primary_industry\<close>.
\<close>

theorem primary_industry_null_counterexample:
  "prepare_master_table ex_data = Inr ex_master \<and>
   df_rows ex_master ! 1 \<in> set (df_rows ex_master) \<and>
   map_of (df_rows ex_master ! 1) ''company_id'' = Some (Str ''c3'') \<and>
   map_of (df_rows ex_master ! 1) ''primary_industry'' = Some Null \<and>
   \<not> (\<exists>l \<in> set industry_labels.
        map_of (df_rows ex_master ! 1) ''primary_industry'' = Some (Str l))"
  by code_simp

text \<open>
  C2, amended. \<open>derive_primary_industry\<close> returns one of the twelve industry labels or
  \<^verbatim>\<open>Other\<close> for every row. When Hiring has no \<^verbatim>\<open>primary_industry\<close> column of its own, every
  row of a master table that \<open>prepare_master_table\<close> returns has the field
  \<^verbatim>\<open>primary_industry\<close>: it is one of those thirteen strings when the row's \<^verbatim>\<open>company_id\<close>
  occurs in Features, and null when it does not.
\<close>

theorem primary_industry_valid:
  assumes "prepare_master_table data = Inr master" and "m \<in> set (df_rows master)"
    and "''primary_industry'' \<notin> set (df_columns (hiring data))"
  shows "derive_primary_industry r \<in>
           set [''AI'', ''Software'', ''IT'', ''SaaS'', ''Healthcare'', ''FinTech'',
                ''Financial Services'', ''Machine Learning'', ''Manufacturing'', ''Biotech'',
                ''Generative AI'', ''Developer Tools'', ''Other''] \<and>
         ((\<exists>f \<in> set (df_rows (features data)).
             cell_of f ''company_id'' = cell_of m ''company_id'') \<longrightarrow>
          (\<exists>l \<in> set [''AI'', ''Software'', ''IT'', ''SaaS'', ''Healthcare'', ''FinTech'',
                ''Financial Services'', ''Machine Learning'', ''Manufacturing'', ''Biotech'',
                ''Generative AI'', ''Developer Tools'', ''Other''].
             map_of m ''primary_industry'' = Some (Str l))) \<and>
         ((\<forall>f \<in> set (df_rows (features data)).
             cell_of f ''company_id'' \<noteq> cell_of m ''company_id'') \<longrightarrow>
          map_of m ''primary_industry'' = Some Null)"
proof -
  note p = prepare_master_table_facts [OF assms(1)]
  from row_step_bwd [OF p(1) assms(2)] obtain h where f: "master_facts 9 data master h m"
    by blast
  note g = master_facts_final [OF f]
  note k = master_facts_key(1) [OF f p(3)]
  have "''primary_industry'' \<in> {''primary_industry''} - set (df_columns (hiring data))"
    using assms(3) by blast
  with g(6) have x: "''primary_industry'' \<in> set (df_columns master) \<and>
           ((\<exists>f \<in> set (df_rows (features data)).
                cell_of f ''company_id'' = cell_of m ''company_id'' \<and>
                (\<exists>l \<in> set industry_labels. cell_of m ''primary_industry'' = Str l)) \<or>
            ((\<forall>f \<in> set (df_rows (features data)).
                cell_of f ''company_id'' \<noteq> cell_of m ''company_id'') \<and>
             cell_of m ''primary_industry'' = Null))"
    unfolding k by (rule bspec)
  note mp = map_of_wf [OF p(2) assms(2) x [THEN conjunct1]]
  have a: "\<exists>l \<in> set industry_labels. map_of m ''primary_industry'' = Some (Str l)"
    if y: "\<exists>f \<in> set (df_rows (features data)).
             cell_of f ''company_id'' = cell_of m ''company_id''"
    using x [THEN conjunct2]
  proof
    assume "\<exists>f \<in> set (df_rows (features data)).
                cell_of f ''company_id'' = cell_of m ''company_id'' \<and>
                (\<exists>l \<in> set industry_labels. cell_of m ''primary_industry'' = Str l)"
    then obtain l where "l \<in> set industry_labels" "cell_of m ''primary_industry'' = Str l"
      by (elim bexE conjE)
    then show ?thesis unfolding mp by (intro bexI [of _ l]) simp_all
  next
    assume n: "(\<forall>f \<in> set (df_rows (features data)).
                cell_of f ''company_id'' \<noteq> cell_of m ''company_id'') \<and>
             cell_of m ''primary_industry'' = Null"
    from y obtain f where f: "f \<in> set (df_rows (features data))"
      and e: "cell_of f ''company_id'' = cell_of m ''company_id''" by (elim bexE)
    from n [THEN conjunct1, rule_format, OF f] e show ?thesis by (rule notE)
  qed
  have b: "map_of m ''primary_industry'' = Some Null"
    if n: "\<forall>f \<in> set (df_rows (features data)).
             cell_of f ''company_id'' \<noteq> cell_of m ''company_id''"
    using x [THEN conjunct2]
  proof
    assume "\<exists>f \<in> set (df_rows (features data)).
                cell_of f ''company_id'' = cell_of m ''company_id'' \<and>
                (\<exists>l \<in> set industry_labels. cell_of m ''primary_industry'' = Str l)"
    then obtain f where f: "f \<in> set (df_rows (features data))"
      and e: "cell_of f ''company_id'' = cell_of m ''company_id''" by (elim bexE conjE)
    from n [rule_format, OF f] e show ?thesis by (rule notE)
  next
    assume "(\<forall>f \<in> set (df_rows (features data)).
                cell_of f ''company_id'' \<noteq> cell_of m ''company_id'') \<and>
             cell_of m ''primary_industry'' = Null"
    then show ?thesis unfolding mp by simp
  qed
  show ?thesis
    unfolding industry_labels_eq [symmetric]
    by (intro conjI impI) (rule derive_primary_industry_valid, erule a, erule b)
qed

theorem primary_industry_valid_witness:
  "derive_primary_industry (df_rows (features ex_data) ! 1) \<in>
           set [''AI'', ''Software'', ''IT'', ''SaaS'', ''Healthcare'', ''FinTech'',
                ''Financial Services'', ''Machine Learning'', ''Manufacturing'', ''Biotech'',
                ''Generative AI'', ''Developer Tools'', ''Other''] \<and>
   (\<exists>f \<in> set (df_rows (features ex_data)).
       cell_of f ''company_id'' = cell_of (df_rows ex_master ! 0) ''company_id'') \<and>
   (\<exists>l \<in> set [''AI'', ''Software'', ''IT'', ''SaaS'', ''Healthcare'', ''FinTech'',
                ''Financial Services'', ''Machine Learning'', ''Manufacturing'', ''Biotech'',
                ''Generative AI'', ''Developer Tools'', ''Other''].
       map_of (df_rows ex_master ! 0) ''primary_industry'' = Some (Str l)) \<and>
   \<not> (\<exists>f \<in> set (df_rows (features ex_data)).
       cell_of f ''company_id'' = cell_of (df_rows ex_master ! 1) ''company_id'') \<and>
   map_of (df_rows ex_master ! 1) ''primary_industry'' = Some Null \<and>
   ''primary_industry'' \<notin> set (df_columns (hiring ex_data)) \<and>
   derive_primary_industry (df_rows (features ex_data) ! 0) = ''SaaS'' \<and>
   derive_primary_industry (df_rows (features ex_data) ! 1) = ''Other''"
proof -
  have m0: "df_rows ex_master ! 0 \<in> set (df_rows ex_master)" by code_simp
  have m1: "df_rows ex_master ! 1 \<in> set (df_rows ex_master)" by code_simp
  have c: "''primary_industry'' \<notin> set (df_columns (hiring ex_data))" by code_simp
  have y: "\<exists>f \<in> set (df_rows (features ex_data)).
       cell_of f ''company_id'' = cell_of (df_rows ex_master ! 0) ''company_id''" by code_simp
  have n: "\<not> (\<exists>f \<in> set (df_rows (features ex_data)).
       cell_of f ''company_id'' = cell_of (df_rows ex_master ! 1) ''company_id'')" by code_simp
  then have n': "\<forall>f \<in> set (df_rows (features ex_data)).
       cell_of f ''company_id'' \<noteq> cell_of (df_rows ex_master ! 1) ''company_id''"
    by (simp only: bex_simps)
  note t0 = primary_industry_valid [OF ex_master_eval m0 c, of "df_rows (features ex_data) ! 1"]
  note t1 = primary_industry_valid [OF ex_master_eval m1 c, of "df_rows (features ex_data) ! 1"]
  have d: "derive_primary_industry (df_rows (features ex_data) ! 0) = ''SaaS'' \<and>
   derive_primary_industry (df_rows (features ex_data) ! 1) = ''Other''" by code_simp
  show ?thesis
    by (intro conjI) (rule t0 [THEN conjunct1], rule y,
        rule t0 [THEN conjunct2, THEN conjunct1, THEN mp, OF y], rule n,
        rule t1 [THEN conjunct2, THEN conjunct2, THEN mp, OF n'], rule c,
        rule d [THEN conjunct1], rule d [THEN conjunct2])
qed
subsection \<open>Filters on the master table\<close>

lemma apply_filters_stages:
  assumes "apply_filters df min_score tiers industries stages search = Inr out"
  obtains f1 f2 f3 f4
  where "(if 0 < min_score then filter_ge ''hiring_score'' min_score df else Inr df) = Inr f1"
    and "(if tiers \<noteq> [] then filter_isin ''momentum_tier'' tiers f1 else Inr f1) = Inr f2"
    and "(if industries \<noteq> [] then filter_isin ''primary_industry'' industries f2 else Inr f2)
           = Inr f3"
    and "(if stages \<noteq> [] then filter_isin ''funding_stage_label'' stages f3 else Inr f3)
           = Inr f4"
    and "(if search \<noteq> [] then filter_contains ''name'' search f4 else Inr f4) = Inr out"
  using assms unfolding apply_filters_def bind_err_eq_Inr
  by (elim exE conjE) (rule that)

lemma opt_filter_ge_subset:
  "(if b then filter_ge c n f else Inr f) = Inr g \<Longrightarrow> set (df_rows g) \<subseteq> set (df_rows f)"
  by (cases b) (auto dest: filter_ge_rows)

lemma opt_filter_isin_subset:
  "(if b then filter_isin c vs f else Inr f) = Inr g \<Longrightarrow> set (df_rows g) \<subseteq> set (df_rows f)"
  by (cases b) (auto dest: filter_isin_rows)

lemma opt_filter_contains_subset:
  "(if b then filter_contains c pat f else Inr f) = Inr g \<Longrightarrow>
     set (df_rows g) \<subseteq> set (df_rows f)"
  by (cases b) (auto dest: filter_contains_rows)

lemma apply_filters_tier_rows:
  assumes t: "tiers \<noteq> []"
    and a: "apply_filters df min_score tiers industries stages search = Inr out"
    and r: "r \<in> set (df_rows out)"
  shows "r \<in> set (df_rows df)" and "\<exists>t \<in> set tiers. cell_of r ''momentum_tier'' = Str t"
proof -
  from apply_filters_stages [OF a] obtain f1 f2 f3 f4
    where s1: "(if 0 < min_score then filter_ge ''hiring_score'' min_score df else Inr df)
                 = Inr f1"
      and s2: "(if tiers \<noteq> [] then filter_isin ''momentum_tier'' tiers f1 else Inr f1) = Inr f2"
      and s3: "(if industries \<noteq> [] then filter_isin ''primary_industry'' industries f2
                else Inr f2) = Inr f3"
      and s4: "(if stages \<noteq> [] then filter_isin ''funding_stage_label'' stages f3 else Inr f3)
                 = Inr f4"
      and s5: "(if search \<noteq> [] then filter_contains ''name'' search f4 else Inr f4) = Inr out"
    by blast
  from r opt_filter_contains_subset [OF s5] opt_filter_isin_subset [OF s4]
    opt_filter_isin_subset [OF s3]
  have r2: "r \<in> set (df_rows f2)" by blast
  from s2 t have "filter_isin ''momentum_tier'' tiers f1 = Inr f2" by simp
  from filter_isin_rows [OF this] r2
  have r1: "r \<in> set (df_rows f1)"
    and x: "\<exists>t \<in> set tiers. cell_of r ''momentum_tier'' = Str t" by simp_all
  from r1 opt_filter_ge_subset [OF s1] show "r \<in> set (df_rows df)" by blast
  from x show "\<exists>t \<in> set tiers. cell_of r ''momentum_tier'' = Str t" .
qed

lemma master_tier_absent:
  assumes p: "prepare_master_table data = Inr master" and m: "m \<in> set (df_rows master)"
    and c: "''momentum_tier'' \<notin> set (df_columns (hiring data))"
    and n: "\<forall>s \<in> set (df_rows (scores data)).
              cell_of s ''company_id'' \<noteq> cell_of m ''company_id''"
  shows "cell_of m ''momentum_tier'' = Null"
proof -
  note q = prepare_master_table_facts [OF p]
  from row_step_bwd [OF q(1) m] obtain h where f: "master_facts 9 data master h m" by blast
  note k = master_facts_key(1) [OF f q(3)]
  have "''momentum_tier'' \<in> {''momentum_score'', ''momentum_tier'', ''momentum_rank''} -
          set (df_columns (hiring data))"
    using c by blast
  with master_facts_final(2) [OF f]
  have "''momentum_tier'' \<in> set (df_columns master) \<and>
        joined (scores data) ''company_id'' (cell_of m ''company_id'') ''momentum_tier''
          (cell_of m ''momentum_tier'')"
    unfolding k by (rule bspec)
  from joined_absent [OF this [THEN conjunct2] n] show ?thesis .
qed

text \<open>
  C10. When the list of tiers is not empty (it may hold all five tier labels), every row
  that \<open>apply_filters\<close> returns is a row of the table with a \<^verbatim>\<open>momentum_tier\<close> among the
  tiers, so a row whose \<^verbatim>\<open>momentum_tier\<close> is null is not returned. Hence, on a master table
  that \<open>prepare_master_table\<close> made (Hiring having no \<^verbatim>\<open>momentum_tier\<close> column of its own), a
  row whose \<^verbatim>\<open>company_id\<close> occurs in no row of Scores is not returned.
\<close>

theorem null_tier_filtered_out:
  assumes "tiers \<noteq> []"
    and "apply_filters df min_score tiers industries stages search = Inr out"
  shows "(\<forall>r \<in> set (df_rows out).
            r \<in> set (df_rows df) \<and> (\<exists>t \<in> set tiers. cell_of r ''momentum_tier'' = Str t)) \<and>
         (\<forall>r \<in> set (df_rows df). cell_of r ''momentum_tier'' = Null \<longrightarrow>
            r \<notin> set (df_rows out)) \<and>
         (prepare_master_table data = Inr df \<longrightarrow>
          ''momentum_tier'' \<notin> set (df_columns (hiring data)) \<longrightarrow>
            (\<forall>r \<in> set (df_rows df).
               (\<forall>s \<in> set (df_rows (scores data)).
                  cell_of s ''company_id'' \<noteq> cell_of r ''company_id'') \<longrightarrow>
               r \<notin> set (df_rows out)))"
proof (intro conjI ballI impI)
  fix r assume "r \<in> set (df_rows out)"
  from apply_filters_tier_rows [OF assms this]
  show "r \<in> set (df_rows df)" and "\<exists>t \<in> set tiers. cell_of r ''momentum_tier'' = Str t" .
next
  fix r assume n: "cell_of r ''momentum_tier'' = Null"
  show "r \<notin> set (df_rows out)"
  proof
    assume "r \<in> set (df_rows out)"
    from apply_filters_tier_rows(2) [OF assms this] n show False by simp
  qed
next
  fix r
  assume p: "prepare_master_table data = Inr df"
    and c: "''momentum_tier'' \<notin> set (df_columns (hiring data))"
    and r: "r \<in> set (df_rows df)"
    and n: "\<forall>s \<in> set (df_rows (scores data)).
              cell_of s ''company_id'' \<noteq> cell_of r ''company_id''"
  note z = master_tier_absent [OF p r c n]
  show "r \<notin> set (df_rows out)"
  proof
    assume "r \<in> set (df_rows out)"
    from apply_filters_tier_rows(2) [OF assms this] z show False by simp
  qed
qed

theorem null_tier_filtered_out_witness:
  "all_tiers \<noteq> [] \<and>
   apply_filters ex_master 0 all_tiers [] [] [] =
     Inr (ex_master\<lparr>df_rows := take 2 (df_rows ex_master)\<rparr>) \<and>
   cell_of (df_rows ex_master ! 2) ''momentum_tier'' = Null \<and>
   cell_of (df_rows ex_master ! 2) ''company_id'' = Str ''c2'' \<and>
   \<not> (\<exists>s \<in> set (df_rows (scores ex_data)).
        cell_of s ''company_id'' = cell_of (df_rows ex_master ! 2) ''company_id'') \<and>
   ''momentum_tier'' \<notin> set (df_columns (hiring ex_data)) \<and>
   df_rows ex_master ! 2 \<notin> set (df_rows (ex_master\<lparr>df_rows := take 2 (df_rows ex_master)\<rparr>)) \<and>
   (\<exists>t \<in> set all_tiers. cell_of (df_rows ex_master ! 0) ''momentum_tier'' = Str t)"
proof -
  let ?out = "ex_master\<lparr>df_rows := take 2 (df_rows ex_master)\<rparr>"
  have t: "all_tiers \<noteq> []" by code_simp
  have a: "apply_filters ex_master 0 all_tiers [] [] [] = Inr ?out" by code_simp
  have e: "cell_of (df_rows ex_master ! 2) ''momentum_tier'' = Null \<and>
           cell_of (df_rows ex_master ! 2) ''company_id'' = Str ''c2''" by code_simp
  have n: "\<not> (\<exists>s \<in> set (df_rows (scores ex_data)).
        cell_of s ''company_id'' = cell_of (df_rows ex_master ! 2) ''company_id'')"
    by code_simp
  then have n': "\<forall>s \<in> set (df_rows (scores ex_data)).
        cell_of s ''company_id'' \<noteq> cell_of (df_rows ex_master ! 2) ''company_id''"
    by (simp only: bex_simps)
  have c: "''momentum_tier'' \<notin> set (df_columns (hiring ex_data))" by code_simp
  have m2: "df_rows ex_master ! 2 \<in> set (df_rows ex_master)" by code_simp
  have m0: "df_rows ex_master ! 0 \<in> set (df_rows ?out)" by code_simp
  note th = null_tier_filtered_out [OF t a, of ex_data]
  note x = th [THEN conjunct2, THEN conjunct2, THEN mp, OF ex_master_eval, THEN mp, OF c,
      THEN bspec, OF m2, THEN mp, OF n']
  note y = th [THEN conjunct1, THEN bspec, OF m0, THEN conjunct2]
  show ?thesis
    by (intro conjI) (rule t, rule a, rule e [THEN conjunct1], rule e [THEN conjunct2], rule n,
        rule c, rule x, rule y)
qed

end
